theory Spec2Isabelle
  imports Complex_Main "HOL-Library.Word"
begin

section \<open>Binary64 rounding\<close>

text \<open>
  The analyser of \<^verbatim>\<open>src/index.ts\<close> computes with JavaScript numbers, that is in IEEE 754
  binary64, where every arithmetic operation returns the exact result rounded to the
  nearest representable number, ties going to the even significand. \<open>rnd\<close> is that
  rounding on the reals: a number of magnitude in \<open>[2\<^sup>e, 2\<^sup>e\<^sup>+\<^sup>1)\<close> is rounded to a multiple of
  \<open>2\<^sup>e\<^sup>-\<^sup>5\<^sup>2\<close>, and below \<open>2\<^sup>-\<^sup>1\<^sup>0\<^sup>2\<^sup>2\<close> (the subnormal range) to a multiple of \<open>2\<^sup>-\<^sup>1\<^sup>0\<^sup>7\<^sup>4\<close>.
  Overflow to an infinity is not modelled: the lightness values and their running sums
  stay far below \<open>2\<^sup>1\<^sup>0\<^sup>2\<^sup>4\<close>, and a band width that overflows is, in the source as here,
  beyond every pixel coordinate.
\<close>

definition round_even :: "real \<Rightarrow> int" where
  "round_even q =
     (let f = \<lfloor>q\<rfloor>; d = q - of_int f
      in if d < 1 / 2 then f else if 1 / 2 < d then f + 1 else if even f then f else f + 1)"

definition emin :: int where
  "emin = - 1022"

definition exponent :: "real \<Rightarrow> int" where
  "exponent x = max \<lfloor>log 2 \<bar>x\<bar>\<rfloor> emin"

definition ulp :: "real \<Rightarrow> real" where
  "ulp x = 2 powi (exponent x - 52)"

definition rnd :: "real \<Rightarrow> real" where
  "rnd x = (if x = 0 then 0 else of_int (round_even (x / ulp x)) * ulp x)"

text \<open>The smallest positive binary64 number.\<close>

definition tiny :: real where
  "tiny = 2 powi (emin - 52)"

section \<open>Numbers of the source language\<close>

text \<open>
  A number is \<open>NaN\<close> or a finite binary64 value, carried as the real it denotes.
  Reading a typed array beyond its length gives \<^verbatim>\<open>undefined\<close>, which every operation of
  the analyser coerces to \<open>NaN\<close>; \<open>NaN\<close> propagates through arithmetic and makes every
  comparison false. Each arithmetic operation rounds its exact result, and so does
  \<^verbatim>\<open>Math.sqrt\<close>, which the engines that run the library compute correctly rounded;
  comparisons, \<^verbatim>\<open>Math.max\<close> and \<^verbatim>\<open>Math.min\<close> are exact. No division of the analyser
  has a zero divisor (the divisors are 255, 0.42 and two counters that are tested to be
  positive).
\<close>

datatype number = NaN | Num real

instantiation number :: "{plus, minus, times, inverse, ord}"
begin

fun plus_number :: "number \<Rightarrow> number \<Rightarrow> number" where
  "plus_number (Num a) (Num b) = Num (rnd (a + b))"
| "plus_number _ _ = NaN"

fun minus_number :: "number \<Rightarrow> number \<Rightarrow> number" where
  "minus_number (Num a) (Num b) = Num (rnd (a - b))"
| "minus_number _ _ = NaN"

fun times_number :: "number \<Rightarrow> number \<Rightarrow> number" where
  "times_number (Num a) (Num b) = Num (rnd (a * b))"
| "times_number _ _ = NaN"

fun divide_number :: "number \<Rightarrow> number \<Rightarrow> number" where
  "divide_number (Num a) (Num b) = Num (rnd (a / b))"
| "divide_number _ _ = NaN"

fun inverse_number :: "number \<Rightarrow> number" where
  "inverse_number (Num a) = Num (rnd (inverse a))"
| "inverse_number NaN = NaN"

fun less_number :: "number \<Rightarrow> number \<Rightarrow> bool" where
  "less_number (Num a) (Num b) = (a < b)"
| "less_number _ _ = False"

fun less_eq_number :: "number \<Rightarrow> number \<Rightarrow> bool" where
  "less_eq_number (Num a) (Num b) = (a \<le> b)"
| "less_eq_number _ _ = False"

instance ..

end

text \<open>A decimal literal of the source denotes the binary64 number nearest to it.\<close>

definition lit :: "real \<Rightarrow> number" where
  "lit x = Num (rnd x)"

text \<open>\<^verbatim>\<open>===\<close> on numbers: \<open>NaN\<close> is equal to nothing, itself included.\<close>

fun strict_eq :: "number \<Rightarrow> number \<Rightarrow> bool" where
  "strict_eq (Num a) (Num b) = (a = b)"
| "strict_eq _ _ = False"

fun Math_sqrt :: "number \<Rightarrow> number" where
  "Math_sqrt (Num a) = (if a < 0 then NaN else Num (rnd (sqrt a)))"
| "Math_sqrt NaN = NaN"

fun Math_max :: "number \<Rightarrow> number \<Rightarrow> number" where
  "Math_max (Num a) (Num b) = Num (max a b)"
| "Math_max _ _ = NaN"

fun Math_min :: "number \<Rightarrow> number \<Rightarrow> number" where
  "Math_min (Num a) (Num b) = Num (min a b)"
| "Math_min _ _ = NaN"

section \<open>Data model\<close>

text \<open>
  A \<^verbatim>\<open>Uint8Array\<close> (or \<^verbatim>\<open>Uint8ClampedArray\<close>) is a sequence of bytes; the language
  bounds its length by \<open>2\<^sup>5\<^sup>3 - 1\<close>. \<open>Uint8Array_from\<close> builds one from a list, as
  \<^verbatim>\<open>Uint8ClampedArray.from\<close> does in the repository's tests (a list longer than the bound
  is no typed array; only its first \<open>2\<^sup>5\<^sup>3 - 1\<close> bytes are kept here).
\<close>

typedef Uint8Array = "{bs :: 8 word list. length bs < 2 ^ 53}"
  by (rule exI[of _ "[]"]) simp

definition array_length :: "Uint8Array \<Rightarrow> nat" where
  "array_length a = length (Rep_Uint8Array a)"

definition array_get :: "Uint8Array \<Rightarrow> nat \<Rightarrow> 8 word" where
  "array_get a i = Rep_Uint8Array a ! i"

definition Uint8Array_from :: "8 word list \<Rightarrow> Uint8Array" where
  "Uint8Array_from bs = Abs_Uint8Array (take (2 ^ 53 - 1) bs)"

text \<open>
  \<^verbatim>\<open>ImageLike\<close>: width and height are pixel counts. \<^verbatim>\<open>SuggestionOptions\<close>: every field is
  optional, the defaults are filled in by the destructuring at the head of
  \<^verbatim>\<open>suggestBackground\<close>; a threshold or ratio that is given is a binary64 number.
\<close>

record ImageLike =
  width :: nat
  height :: nat
  data :: Uint8Array

record SuggestionOptions =
  alphaThreshold :: "real option"
  ignorePureWhite :: "bool option"
  ignorePureBlack :: "bool option"
  edgeSampleRatio :: "real option"

datatype tone = light | dark

record BackgroundSuggestion =
  tone :: tone
  confidence :: number
  foregroundLightness :: number
  foregroundSampled :: nat
  totalSampled :: nat

text \<open>\<^verbatim>\<open>data[i]\<close>: the byte as a number, \<^verbatim>\<open>undefined\<close> (here \<open>NaN\<close>) out of range.\<close>

definition data_at :: "Uint8Array \<Rightarrow> nat \<Rightarrow> number" where
  "data_at d i = (if i < array_length d then Num (real (unat (array_get d i))) else NaN)"

section \<open>The analyser\<close>

definition perceivedLightness :: "number \<Rightarrow> number \<Rightarrow> number \<Rightarrow> number" where
  "perceivedLightness r g b =
     Math_sqrt (lit 0.299 * r * r + lit 0.587 * g * g + lit 0.114 * b * b) / Num 255"

text \<open>The resolved options: \<^verbatim>\<open>const { alphaThreshold = 16, ... } = options\<close>.\<close>

definition opt_alphaThreshold :: "SuggestionOptions \<Rightarrow> real" where
  "opt_alphaThreshold opts = (case alphaThreshold opts of None \<Rightarrow> 16 | Some t \<Rightarrow> t)"

definition opt_ignorePureWhite :: "SuggestionOptions \<Rightarrow> bool" where
  "opt_ignorePureWhite opts = (case ignorePureWhite opts of None \<Rightarrow> True | Some b \<Rightarrow> b)"

definition opt_ignorePureBlack :: "SuggestionOptions \<Rightarrow> bool" where
  "opt_ignorePureBlack opts = (case ignorePureBlack opts of None \<Rightarrow> False | Some b \<Rightarrow> b)"

definition opt_edgeSampleRatio :: "SuggestionOptions \<Rightarrow> real" where
  "opt_edgeSampleRatio opts = (case edgeSampleRatio opts of None \<Rightarrow> rnd 0.4 | Some q \<Rightarrow> q)"

text \<open>\<^verbatim>\<open>Math.floor(width * edgeSampleRatio)\<close>: the floor of the rounded product.\<close>

definition edgeBandX :: "ImageLike \<Rightarrow> SuggestionOptions \<Rightarrow> int" where
  "edgeBandX img opts = \<lfloor>rnd (real (width img) * opt_edgeSampleRatio opts)\<rfloor>"

definition edgeBandY :: "ImageLike \<Rightarrow> SuggestionOptions \<Rightarrow> int" where
  "edgeBandY img opts = \<lfloor>rnd (real (height img) * opt_edgeSampleRatio opts)\<rfloor>"

subsection \<open>Pass 1: foreground statistics\<close>

text \<open>
  The counters are integers below \<open>2\<^sup>5\<^sup>3\<close> on every bitmap that fits a typed array, so
  their increments are exact and they are kept as natural numbers.
\<close>

record pass1 =
  fgCount :: nat
  accumLightness :: number
  pureWhiteIgnored :: nat
  pureBlackIgnored :: nat

definition pass1_init :: pass1 where
  "pass1_init = \<lparr>fgCount = 0, accumLightness = Num 0, pureWhiteIgnored = 0, pureBlackIgnored = 0\<rparr>"

text \<open>The body of the inner loop at column \<open>x\<close> of row \<open>y\<close>; each \<^verbatim>\<open>continue\<close>
  leaves the body with the state it has reached.\<close>

definition pass1_body :: "ImageLike \<Rightarrow> SuggestionOptions \<Rightarrow> nat \<Rightarrow> nat \<Rightarrow> pass1 \<Rightarrow> pass1" where
  "pass1_body img opts y x s =
     (let idx = (y * width img + x) * 4;
          a = data_at (data img) (idx + 3)
      in if a < Num (opt_alphaThreshold opts) then s
         else
           let r = data_at (data img) idx;
               g = data_at (data img) (idx + 1);
               b = data_at (data img) (idx + 2)
           in if opt_ignorePureWhite opts \<and> strict_eq r (Num 255) \<and> strict_eq g (Num 255)
                   \<and> strict_eq b (Num 255)
              then s\<lparr>pureWhiteIgnored := pureWhiteIgnored s + 1\<rparr>
              else if opt_ignorePureBlack opts \<and> strict_eq r (Num 0) \<and> strict_eq g (Num 0)
                   \<and> strict_eq b (Num 0)
              then s\<lparr>pureBlackIgnored := pureBlackIgnored s + 1\<rparr>
              else
                let l = perceivedLightness r g b
                in s\<lparr>accumLightness := accumLightness s + l, fgCount := fgCount s + 1\<rparr>)"

definition pass1_row :: "ImageLike \<Rightarrow> SuggestionOptions \<Rightarrow> nat \<Rightarrow> pass1 \<Rightarrow> pass1" where
  "pass1_row img opts y s = fold (pass1_body img opts y) [0..<width img] s"

definition pass1_scan :: "ImageLike \<Rightarrow> SuggestionOptions \<Rightarrow> pass1" where
  "pass1_scan img opts = fold (pass1_row img opts) [0..<height img] pass1_init"

subsection \<open>Pass 2: the edge band, run only for a mid-tone foreground\<close>

record pass2 =
  edgeOpaque :: nat
  edgeLightAccum :: number

definition pass2_init :: pass2 where
  "pass2_init = \<lparr>edgeOpaque = 0, edgeLightAccum = Num 0\<rparr>"

text \<open>The band tests compare integers; \<^verbatim>\<open>height - edgeBandY\<close> is an exact difference.\<close>

definition inYBand :: "ImageLike \<Rightarrow> SuggestionOptions \<Rightarrow> nat \<Rightarrow> bool" where
  "inYBand img opts y =
     (int y < edgeBandY img opts \<or> int y \<ge> int (height img) - edgeBandY img opts)"

definition inXBand :: "ImageLike \<Rightarrow> SuggestionOptions \<Rightarrow> nat \<Rightarrow> bool" where
  "inXBand img opts x =
     (int x < edgeBandX img opts \<or> int x \<ge> int (width img) - edgeBandX img opts)"

definition pass2_body :: "ImageLike \<Rightarrow> SuggestionOptions \<Rightarrow> nat \<Rightarrow> nat \<Rightarrow> pass2 \<Rightarrow> pass2" where
  "pass2_body img opts y x s =
     (if \<not> (inYBand img opts y \<or> inXBand img opts x) then s
      else
        let idx = (y * width img + x) * 4;
            a = data_at (data img) (idx + 3)
        in if a < Num (opt_alphaThreshold opts) then s
           else
             let r = data_at (data img) idx;
                 g = data_at (data img) (idx + 1);
                 b = data_at (data img) (idx + 2);
                 l = perceivedLightness r g b
             in s\<lparr>edgeLightAccum := edgeLightAccum s + l, edgeOpaque := edgeOpaque s + 1\<rparr>)"

definition pass2_row :: "ImageLike \<Rightarrow> SuggestionOptions \<Rightarrow> nat \<Rightarrow> pass2 \<Rightarrow> pass2" where
  "pass2_row img opts y s = fold (pass2_body img opts y) [0..<width img] s"

definition pass2_scan :: "ImageLike \<Rightarrow> SuggestionOptions \<Rightarrow> pass2" where
  "pass2_scan img opts = fold (pass2_row img opts) [0..<height img] pass2_init"

subsection \<open>The decision\<close>

text \<open>The mid-tone branch: tone and confidence from the edge statistics.\<close>

definition edge_decision :: "pass2 \<Rightarrow> number \<Rightarrow> tone \<times> number" where
  "edge_decision e avgLightness =
     (if edgeOpaque e > 0 then
        let edgeAvg = edgeLightAccum e / Num (real (edgeOpaque e))
        in (if edgeAvg > avgLightness then light else dark, lit 0.3)
      else (dark, lit 0.1))"

definition suggestBackground :: "ImageLike \<Rightarrow> SuggestionOptions \<Rightarrow> BackgroundSuggestion" where
  "suggestBackground img opts =
     (let totalPixels = width img * height img;
          s = pass1_scan img opts
      in if fgCount s = 0 then
           \<lparr>tone = dark, confidence = Num 0, foregroundLightness = Num 0,
            foregroundSampled = 0, totalSampled = totalPixels\<rparr>
         else
           let avgLightness = accumLightness s / Num (real (fgCount s));
               (tone, confidence) =
                 (if avgLightness > lit 0.58 then
                    (dark, (avgLightness - lit 0.58) / lit 0.42)
                  else if avgLightness < lit 0.42 then
                    (light, (lit 0.42 - avgLightness) / lit 0.42)
                  else edge_decision (pass2_scan img opts) avgLightness);
               confidence = Math_max (Num 0) (Math_min (Num 1) confidence)
           in \<lparr>tone = tone, confidence = confidence, foregroundLightness = avgLightness,
               foregroundSampled = fgCount s, totalSampled = totalPixels\<rparr>)"

section \<open>What the analyser is specified to compute\<close>

text \<open>
  The specification speaks of pixels, of the set of foreground pixels and of mean
  lightness. These notions are defined here on their own, over pixel coordinates
  \<open>(x, y)\<close> (column, row), and are related to the two scans by the lemmas
  below. A bitmap is well formed when its buffer holds four bytes for every pixel.
\<close>

definition well_formed :: "ImageLike \<Rightarrow> bool" where
  "well_formed img = (width img * height img * 4 \<le> array_length (data img))"

text \<open>Channel \<open>k\<close> (0 red, 1 green, 2 blue, 3 alpha) of the pixel in column \<open>x\<close> of row \<open>y\<close>.\<close>

definition channel :: "ImageLike \<Rightarrow> nat \<Rightarrow> nat \<Rightarrow> nat \<Rightarrow> nat" where
  "channel img k x y = unat (array_get (data img) ((y * width img + x) * 4 + k))"

text \<open>
  The perceived lightness \<open>sqrt (0.299 R\<^sup>2 + 0.587 G\<^sup>2 + 0.114 B\<^sup>2) / 255\<close>, evaluated in
  binary64 from left to right as the source writes it.
\<close>

definition lightness64 :: "real \<Rightarrow> real \<Rightarrow> real \<Rightarrow> real" where
  "lightness64 r g b =
     rnd (rnd (sqrt (rnd (rnd (rnd (rnd (rnd 0.299 * r) * r) + rnd (rnd (rnd 0.587 * g) * g))
                         + rnd (rnd (rnd 0.114 * b) * b)))) / 255)"

definition lightness :: "ImageLike \<Rightarrow> nat \<Rightarrow> nat \<Rightarrow> real" where
  "lightness img x y =
     lightness64 (real (channel img 0 x y)) (real (channel img 1 x y)) (real (channel img 2 x y))"

text \<open>Foreground: alpha at least the threshold, and not removed by one of the two
  exact-match exclusions.\<close>

definition is_foreground :: "ImageLike \<Rightarrow> SuggestionOptions \<Rightarrow> nat \<Rightarrow> nat \<Rightarrow> bool" where
  "is_foreground img opts x y =
     (opt_alphaThreshold opts \<le> real (channel img 3 x y)
      \<and> \<not> (opt_ignorePureWhite opts \<and> channel img 0 x y = 255 \<and> channel img 1 x y = 255
             \<and> channel img 2 x y = 255)
      \<and> \<not> (opt_ignorePureBlack opts \<and> channel img 0 x y = 0 \<and> channel img 1 x y = 0
             \<and> channel img 2 x y = 0))"

definition pixels :: "ImageLike \<Rightarrow> (nat \<times> nat) set" where
  "pixels img = {..<width img} \<times> {..<height img}"

definition foreground :: "ImageLike \<Rightarrow> SuggestionOptions \<Rightarrow> (nat \<times> nat) set" where
  "foreground img opts = {p \<in> pixels img. is_foreground img opts (fst p) (snd p)}"

text \<open>
  The mean lightness of a set of pixels is the running sum of their lightness, taken in
  row-major order and rounded at every addition, divided by their number.
\<close>

definition row_major :: "ImageLike \<Rightarrow> (nat \<times> nat) list" where
  "row_major img = concat (map (\<lambda>y. map (\<lambda>x. (x, y)) [0..<width img]) [0..<height img])"

definition running_sum :: "ImageLike \<Rightarrow> (nat \<times> nat) list \<Rightarrow> real" where
  "running_sum img ps = foldl (\<lambda>s p. rnd (s + lightness img (fst p) (snd p))) 0 ps"

definition mean_lightness :: "ImageLike \<Rightarrow> (nat \<times> nat) set \<Rightarrow> real" where
  "mean_lightness img S =
     rnd (running_sum img (filter (\<lambda>p. p \<in> S) (row_major img)) / real (card S))"

text \<open>The edge band: the outer rows (top or bottom) or the outer columns (left or right),
  their numbers being the floors of the binary64 products; an edge sample is a pixel of
  the band that passes the alpha threshold.\<close>

definition in_edge_band :: "ImageLike \<Rightarrow> SuggestionOptions \<Rightarrow> nat \<Rightarrow> nat \<Rightarrow> bool" where
  "in_edge_band img opts x y =
     (let bandY = \<lfloor>rnd (real (height img) * opt_edgeSampleRatio opts)\<rfloor>;
          bandX = \<lfloor>rnd (real (width img) * opt_edgeSampleRatio opts)\<rfloor>
      in (int y < bandY \<or> int (height img) - bandY \<le> int y)
         \<or> (int x < bandX \<or> int (width img) - bandX \<le> int x))"

definition is_edge_sample :: "ImageLike \<Rightarrow> SuggestionOptions \<Rightarrow> nat \<Rightarrow> nat \<Rightarrow> bool" where
  "is_edge_sample img opts x y =
     (in_edge_band img opts x y \<and> opt_alphaThreshold opts \<le> real (channel img 3 x y))"

definition edge_sample :: "ImageLike \<Rightarrow> SuggestionOptions \<Rightarrow> (nat \<times> nat) set" where
  "edge_sample img opts = {p \<in> pixels img. is_edge_sample img opts (fst p) (snd p)}"

section \<open>Example bitmaps\<close>

text \<open>
  The bitmaps \<open>light_logo\<close>, \<open>dark_logo\<close> and \<open>half_transparent\<close> and the option
  \<^verbatim>\<open>{ ignorePureWhite: false }\<close> are those of the repository's unit tests; the others
  are small bitmaps on which the decision paths are evaluated below.
\<close>

definition default_options :: SuggestionOptions where
  "default_options = \<lparr>alphaThreshold = None, ignorePureWhite = None, ignorePureBlack = None,
     edgeSampleRatio = None\<rparr>"

definition opaque_logo_options :: SuggestionOptions where
  "opaque_logo_options = default_options\<lparr>ignorePureWhite := Some False\<rparr>"

definition light_logo :: ImageLike where
  "light_logo = \<lparr>width = 2, height = 2, data = Uint8Array_from
     [240, 240, 240, 255,  240, 240, 240, 255,  240, 240, 240, 255,  240, 240, 240, 255]\<rparr>"

definition dark_logo :: ImageLike where
  "dark_logo = \<lparr>width = 2, height = 2, data = Uint8Array_from
     [10, 10, 10, 255,  10, 10, 10, 255,  10, 10, 10, 255,  10, 10, 10, 255]\<rparr>"

definition half_transparent :: ImageLike where
  "half_transparent = \<lparr>width = 2, height = 2, data = Uint8Array_from
     [0, 0, 0, 0,  0, 0, 0, 0,  250, 250, 250, 255,  250, 250, 250, 255]\<rparr>"

definition grey_column :: ImageLike where
  "grey_column = \<lparr>width = 1, height = 3, data = Uint8Array_from
     [121, 121, 121, 255,  121, 121, 121, 255,  121, 121, 121, 255]\<rparr>"

definition white_pixel :: ImageLike where
  "white_pixel = \<lparr>width = 1, height = 1, data = Uint8Array_from [255, 255, 255, 255]\<rparr>"

definition grey_square :: ImageLike where
  "grey_square = \<lparr>width = 2, height = 2, data = Uint8Array_from
     [128, 128, 128, 255,  128, 128, 128, 255,  128, 128, 128, 255,  128, 128, 128, 255]\<rparr>"

definition empty_image :: ImageLike where
  "empty_image = \<lparr>width = 0, height = 0, data = Uint8Array_from []\<rparr>"

text \<open>A bitmap all of whose pixels have the same four channel values.\<close>

definition solid :: "ImageLike \<Rightarrow> nat \<Rightarrow> nat \<Rightarrow> nat \<Rightarrow> nat \<Rightarrow> bool" where
  "solid img r g b a =
     (\<forall>p\<in>pixels img. channel img 0 (fst p) (snd p) = r \<and> channel img 1 (fst p) (snd p) = g
        \<and> channel img 2 (fst p) (snd p) = b \<and> channel img 3 (fst p) (snd p) = a)"

text \<open>Options with both exclusion flags given; threshold and ratio as passed.\<close>

definition flag_options :: "real option \<Rightarrow> real option \<Rightarrow> bool \<Rightarrow> bool \<Rightarrow> SuggestionOptions" where
  "flag_options t q b1 b2 = \<lparr>alphaThreshold = t, ignorePureWhite = Some b1,
     ignorePureBlack = Some b2, edgeSampleRatio = q\<rparr>"

definition zero_threshold_options :: SuggestionOptions where
  "zero_threshold_options = default_options\<lparr>alphaThreshold := Some 0\<rparr>"

definition half_ratio_options :: SuggestionOptions where
  "half_ratio_options = default_options\<lparr>edgeSampleRatio := Some 0.5\<rparr>"

definition full_ratio_options :: SuggestionOptions where
  "full_ratio_options = default_options\<lparr>edgeSampleRatio := Some 1\<rparr>"

definition wide_strip :: ImageLike where
  "wide_strip = \<lparr>width = 3, height = 1, data = Uint8Array_from
     [128, 128, 128, 255,  128, 128, 128, 255,  128, 128, 128, 255]\<rparr>"

definition black_pixel :: ImageLike where
  "black_pixel = \<lparr>width = 1, height = 1, data = Uint8Array_from [0, 0, 0, 255]\<rparr>"

definition grey_pixel :: ImageLike where
  "grey_pixel = \<lparr>width = 1, height = 1, data = Uint8Array_from [128, 128, 128, 255]\<rparr>"

definition white_grey :: ImageLike where
  "white_grey = \<lparr>width = 2, height = 1, data = Uint8Array_from
     [255, 255, 255, 255,  128, 128, 128, 255]\<rparr>"

section \<open>Properties of the rounding\<close>

lemma round_even_cases: "round_even q = \<lfloor>q\<rfloor> \<or> round_even q = \<lfloor>q\<rfloor> + 1"
  by (simp add: round_even_def Let_def)

lemma round_even_near:
  assumes "\<bar>q - of_int n\<bar> < 1 / 2"
  shows "round_even q = n"
proof -
  consider "of_int n \<le> q" | "q < of_int n" by linarith
  then show ?thesis
  proof cases
    case 1
    with assms have "\<lfloor>q\<rfloor> = n" by (simp add: floor_eq_iff; arith)
    with assms 1 show ?thesis by (simp add: round_even_def Let_def)
  next
    case 2
    with assms have f: "\<lfloor>q\<rfloor> = n - 1" by (simp add: floor_eq_iff; arith)
    with assms 2 show ?thesis by (simp add: round_even_def Let_def; arith)
  qed
qed

lemma round_even_of_int [simp]: "round_even (of_int n) = n"
  by (rule round_even_near) simp

lemma round_even_mono:
  assumes "p \<le> q"
  shows "round_even p \<le> round_even q"
proof (cases "\<lfloor>p\<rfloor> = \<lfloor>q\<rfloor>")
  case True
  with assms show ?thesis by (auto simp: round_even_def Let_def)
next
  case False
  with assms have "\<lfloor>p\<rfloor> < \<lfloor>q\<rfloor>" using floor_mono[OF assms] by linarith
  moreover have "round_even p \<le> \<lfloor>p\<rfloor> + 1" using round_even_cases[of p] by linarith
  moreover have "\<lfloor>q\<rfloor> \<le> round_even q" using round_even_cases[of q] by linarith
  ultimately show ?thesis by linarith
qed

lemma round_even_le: "q \<le> of_int n \<Longrightarrow> round_even q \<le> n"
  using round_even_mono[of q "of_int n"] by simp

lemma round_even_ge: "of_int n \<le> q \<Longrightarrow> n \<le> round_even q"
  using round_even_mono[of "of_int n" q] by simp

lemma powr_powi: "(2::real) powr (real_of_int k) = 2 powi k"
  by (rule powr_real_of_int') simp_all

lemma powr_powi_Suc: "(2::real) powr (real_of_int k + 1) = 2 powi (k + 1)"
  using powr_powi[of "k + 1"] by simp

lemma powi_53: "(2::real) ^ 53 * 2 powi (e - 52) = 2 powi (e + 1)"
proof -
  have "(2::real) powi (53 + (e - 52)) = 2 powi 53 * 2 powi (e - 52)"
    by (rule power_int_add) simp
  then show ?thesis by (simp add: algebra_simps)
qed

lemma powi_52: "(2::real) ^ 52 * 2 powi (e - 52) = 2 powi e"
proof -
  have "(2::real) powi (52 + (e - 52)) = 2 powi 52 * 2 powi (e - 52)"
    by (rule power_int_add) simp
  then show ?thesis by (simp add: algebra_simps)
qed

lemma exponent_ge: "emin \<le> exponent x"
  by (simp add: exponent_def)

lemma exponent_upper:
  assumes "0 < x"
  shows "x < 2 powi (exponent x + 1)"
proof -
  have "\<lfloor>log 2 x\<rfloor> \<le> exponent x" using assms by (simp add: exponent_def)
  have "x < 2 powr (real_of_int (\<lfloor>log 2 x\<rfloor> + 1))"
    using floor_log_eq_powr_iff[of x 2 "\<lfloor>log 2 x\<rfloor>"] assms by simp
  also have "\<dots> = 2 powi (\<lfloor>log 2 x\<rfloor> + 1)" by (rule powr_powi)
  also have "\<dots> \<le> 2 powi (exponent x + 1)"
    using \<open>\<lfloor>log 2 x\<rfloor> \<le> exponent x\<close> by (intro power_int_increasing) simp_all
  finally show ?thesis .
qed

lemma exponent_lower:
  assumes "0 < x" "emin < exponent x"
  shows "2 powi (exponent x) \<le> x"
proof -
  have e: "exponent x = \<lfloor>log 2 x\<rfloor>" using assms by (simp add: exponent_def max_def split: if_splits)
  have "2 powr (real_of_int \<lfloor>log 2 x\<rfloor>) \<le> x"
    using floor_log_eq_powr_iff[of x 2 "\<lfloor>log 2 x\<rfloor>"] assms by simp
  then show ?thesis by (simp add: e powr_powi)
qed

lemma exponent_eqI:
  assumes "emin \<le> e" "2 powi e \<le> \<bar>x\<bar>" "\<bar>x\<bar> < 2 powi (e + 1)"
  shows "exponent x = e"
proof -
  have "(0::real) < 2 powi e" by simp
  then have pos: "0 < \<bar>x\<bar>" using assms(2) by linarith
  have "\<lfloor>log 2 \<bar>x\<bar>\<rfloor> = e"
    using floor_log_eq_powr_iff[of "\<bar>x\<bar>" 2 e] pos assms(2,3)
    by (simp add: powr_powi powr_powi_Suc)
  then show ?thesis using assms(1) by (simp add: exponent_def)
qed

lemma exponent_subnormal:
  assumes "x \<noteq> 0" "\<bar>x\<bar> < 2 powi (emin)"
  shows "exponent x = emin"
proof -
  have "\<lfloor>log 2 \<bar>x\<bar>\<rfloor> < emin"
  proof -
    have "log 2 \<bar>x\<bar> < real_of_int (emin)"
      using assms by (subst log_less_iff) (simp_all add: powr_powi)
    then show ?thesis by linarith
  qed
  then show ?thesis by (simp add: exponent_def)
qed

lemma exponent_mono:
  assumes "0 < x" "x \<le> y"
  shows "exponent x \<le> exponent y"
proof -
  have "log 2 x \<le> log 2 y" using assms by simp
  then have "\<lfloor>log 2 x\<rfloor> \<le> \<lfloor>log 2 y\<rfloor>" by (rule floor_mono)
  then show ?thesis using assms by (simp add: exponent_def)
qed

lemma ulp_pos [simp]: "0 < ulp x"
  by (simp add: ulp_def)

lemma ulp_nonneg [simp]: "0 \<le> ulp x"
  by (simp add: ulp_def)

lemma rnd_eqI:
  assumes "emin \<le> e" "2 powi e \<le> \<bar>x\<bar>" "\<bar>x\<bar> < 2 powi (e + 1)"
    and "\<bar>x / 2 powi (e - 52) - of_int n\<bar> < 1 / 2"
  shows "rnd x = of_int n * 2 powi (e - 52)"
proof -
  have "(0::real) < 2 powi e" by simp
  then have "0 < \<bar>x\<bar>" using assms(2) by linarith
  then have "x \<noteq> 0" by auto
  moreover have "ulp x = 2 powi (e - 52)"
    by (simp add: ulp_def exponent_eqI[OF assms(1-3)])
  ultimately show ?thesis
    using round_even_near[OF assms(4)] by (simp add: rnd_def)
qed

lemma rnd_0 [simp]: "rnd 0 = 0"
  by (simp add: rnd_def)

lemma rnd_nonneg:
  assumes "0 \<le> x"
  shows "0 \<le> rnd x"
proof (cases "x = 0")
  case False
  with assms have "0 \<le> x / ulp x" by (intro divide_nonneg_pos) simp_all
  then have "0 \<le> round_even (x / ulp x)" using round_even_ge[of 0] by simp
  then show ?thesis using False by (simp add: rnd_def)
qed simp

lemma rnd_mono:
  assumes "0 \<le> x" "x \<le> y"
  shows "rnd x \<le> rnd y"
proof (cases "x = 0")
  case True
  then show ?thesis using rnd_nonneg[of y] assms by simp
next
  case False
  with assms have x: "0 < x" and y: "0 < y" by simp_all
  have le: "exponent x \<le> exponent y" by (rule exponent_mono[OF x assms(2)])
  show ?thesis
  proof (cases "exponent x = exponent y")
    case True
    then have u: "ulp x = ulp y" by (simp add: ulp_def)
    have "x / ulp y \<le> y / ulp y" using assms(2) by (intro divide_right_mono) simp_all
    then have "round_even (x / ulp y) \<le> round_even (y / ulp y)" by (rule round_even_mono)
    then have "of_int (round_even (x / ulp y)) * ulp y \<le> of_int (round_even (y / ulp y)) * ulp y"
      by (intro mult_right_mono) simp_all
    then show ?thesis using x y by (simp add: rnd_def u)
  next
    case False
    with le have lt: "exponent x < exponent y" by simp
    have "x / ulp x < 2 powi (exponent x + 1) / ulp x"
      using exponent_upper[OF x] by (intro divide_strict_right_mono) simp_all
    also have "\<dots> = 2 ^ 53"
      using powi_53[of "exponent x"] by (simp add: ulp_def field_simps)
    finally have "x / ulp x \<le> of_int (2 ^ 53)" by simp
    then have "round_even (x / ulp x) \<le> 2 ^ 53" by (rule round_even_le)
    then have "real_of_int (round_even (x / ulp x)) \<le> 2 ^ 53"
      by (metis of_int_le_iff of_int_numeral of_int_power)
    then have "of_int (round_even (x / ulp x)) * ulp x \<le> 2 ^ 53 * ulp x"
      by (intro mult_right_mono) simp_all
    also have "\<dots> = 2 powi (exponent x + 1)"
      using powi_53[of "exponent x"] by (simp add: ulp_def)
    finally have a: "rnd x \<le> 2 powi (exponent x + 1)" using x by (simp add: rnd_def)
    have "2 powi (exponent x + 1) \<le> (2::real) powi (exponent y)"
      using lt by (intro power_int_increasing) simp_all
    moreover have "2 powi (exponent y) \<le> rnd y"
    proof -
      have "emin < exponent y" using lt exponent_ge[of x] by linarith
      then have "2 powi (exponent y) \<le> y" by (rule exponent_lower[OF y])
      then have "2 powi (exponent y) / ulp y \<le> y / ulp y"
        by (intro divide_right_mono) simp_all
      moreover have "2 powi (exponent y) / ulp y = 2 ^ 52"
        using powi_52[of "exponent y"] by (simp add: ulp_def field_simps)
      ultimately have "of_int (2 ^ 52) \<le> y / ulp y" by simp
      then have "2 ^ 52 \<le> round_even (y / ulp y)" by (rule round_even_ge)
      then have "2 ^ 52 \<le> real_of_int (round_even (y / ulp y))"
        by (metis of_int_le_iff of_int_numeral of_int_power)
      then have "2 ^ 52 * ulp y \<le> of_int (round_even (y / ulp y)) * ulp y"
        by (intro mult_right_mono) simp_all
      moreover have "2 ^ 52 * ulp y = 2 powi (exponent y)"
        using powi_52[of "exponent y"] by (simp add: ulp_def)
      moreover have "rnd y = of_int (round_even (y / ulp y)) * ulp y"
        using y by (simp add: rnd_def)
      ultimately show ?thesis by linarith
    qed
    ultimately show ?thesis using a by linarith
  qed
qed

lemma tiny_pos [simp]: "0 < tiny"
  by (simp add: tiny_def)

lemma powi_split:
  assumes "j \<le> e"
  shows "(2::real) powi e = 2 ^ nat (e - j) * 2 powi j"
proof -
  have "(2::real) powi ((e - j) + j) = 2 powi (e - j) * 2 powi j"
    by (rule power_int_add) simp
  moreover have "(2::real) powi (e - j) = 2 ^ nat (e - j)"
    using assms by (simp add: power_int_def)
  ultimately show ?thesis by simp
qed

lemma ulp_nonzero [simp]: "ulp x \<noteq> 0"
  by (simp add: ulp_def)

lemma rnd_fixed:
  assumes "0 < x" "x = of_int m * 2 powi (e - 52)" "emin \<le> e" "x < 2 powi (e + 1)"
  shows "rnd x = x"
proof -
  have le: "exponent x \<le> e"
  proof (cases "emin < exponent x")
    case True
    then have "2 powi (exponent x) \<le> x" by (rule exponent_lower[OF assms(1)])
    then have "(2::real) powi (exponent x) < 2 powi (e + 1)" using assms(4) by linarith
    then have "exponent x < e + 1"
      using power_int_increasing[of "e + 1" "exponent x" "2::real"] by (cases "exponent x < e + 1") auto
    then show ?thesis by simp
  next
    case False
    then show ?thesis using assms(3) exponent_ge[of x] by linarith
  qed
  then have "(2::real) powi (e - 52) = 2 ^ nat (e - exponent x) * ulp x"
    using powi_split[of "exponent x - 52" "e - 52"] by (simp add: ulp_def)
  then have x: "x = of_int (m * 2 ^ nat (e - exponent x)) * ulp x"
    using assms(2) by simp
  then have "x / ulp x = of_int (m * 2 ^ nat (e - exponent x)) * ulp x / ulp x"
    by (rule arg_cong[where f = "\<lambda>t. t / ulp x"])
  then have "x / ulp x = of_int (m * 2 ^ nat (e - exponent x))"
    by simp
  then have "round_even (x / ulp x) = m * 2 ^ nat (e - exponent x)"
    by (simp only: round_even_of_int)
  then show ?thesis using assms(1) x by (simp add: rnd_def)
qed

lemma rnd_of_nat:
  assumes "n \<le> 2 ^ 53"
  shows "rnd (real n) = real n"
proof -
  consider "n = 0" | "0 < n" "n < 2 ^ 53" | "n = 2 ^ 53" using assms by linarith
  then show ?thesis
  proof cases
    case 1
    then show ?thesis by simp
  next
    case 2
    show ?thesis
    proof (rule rnd_fixed[where m = "int n" and e = 52])
      show "0 < real n" using 2 by simp
      show "real n = real_of_int (int n) * 2 powi (52 - 52)" by simp
      show "emin \<le> 52" by (simp add: emin_def)
      have "real n < 2 ^ 53" using 2(2) by (metis of_nat_less_iff of_nat_numeral of_nat_power)
      then show "real n < 2 powi (52 + 1)" by simp
    qed
  next
    case 3
    show ?thesis
    proof (rule rnd_fixed[where m = "2 ^ 52" and e = 53])
      show "real n = real_of_int (2 ^ 52) * 2 powi (53 - 52)" using 3 by simp
      show "emin \<le> 53" by (simp add: emin_def)
      show "real n < 2 powi (53 + 1)" using 3 by simp
      show "0 < real n" using 3 by simp
    qed
  qed
qed

lemma rnd_1 [simp]: "rnd 1 = 1"
  using rnd_of_nat[of 1] by simp

lemma rnd_tiny: "rnd tiny = tiny"
proof (rule rnd_fixed[where m = 1 and e = emin])
  show "tiny < 2 powi (emin + 1)"
    unfolding tiny_def by (intro power_int_strict_increasing) simp_all
qed (simp_all add: tiny_def)

lemma rnd_on_grid: "\<exists>k. rnd x = of_int k * tiny"
proof (cases "x = 0")
  case True
  then show ?thesis by (intro exI[of _ 0]) simp
next
  case False
  have "ulp x = 2 ^ nat (exponent x - emin) * tiny"
    using powi_split[of "emin - 52" "exponent x - 52"] exponent_ge[of x]
    by (simp add: ulp_def tiny_def)
  then have "rnd x = of_int (round_even (x / ulp x) * 2 ^ nat (exponent x - emin)) * tiny"
    using False by (simp add: rnd_def)
  then show ?thesis by blast
qed

lemma rnd_pos:
  assumes "tiny \<le> x"
  shows "tiny \<le> rnd x"
  using rnd_mono[of tiny x] assms by (simp add: rnd_tiny less_imp_le)

lemma grid_gap:
  assumes "a = of_int k * tiny" "b = of_int l * tiny" "a < b"
  shows "tiny \<le> b - a"
proof -
  have "of_int k * tiny < of_int l * tiny" using assms by simp
  then have "k < l" using less_imp_le[OF tiny_pos] by (simp add: mult_less_cancel_right)
  then have "1 \<le> real_of_int (l - k)" by simp
  then have "1 * tiny \<le> real_of_int (l - k) * tiny"
    by (intro mult_right_mono) (simp_all add: less_imp_le)
  then show ?thesis using assms by (simp add: algebra_simps)
qed

text \<open>Evaluation at a tie, and of a rounded square root, by arithmetic on rationals.\<close>

lemma round_even_tie:
  assumes "q = of_int f + 1 / 2"
  shows "round_even q = (if even f then f else f + 1)"
proof -
  have "\<lfloor>q\<rfloor> = f" using assms by (simp add: floor_eq_iff)
  then show ?thesis using assms by (simp add: round_even_def Let_def)
qed

lemma rnd_tie_eqI:
  assumes "emin \<le> e" "2 powi e \<le> \<bar>x\<bar>" "\<bar>x\<bar> < 2 powi (e + 1)"
    and "x / 2 powi (e - 52) = of_int f + 1 / 2"
    and "n = (if even f then f else f + 1)"
  shows "rnd x = of_int n * 2 powi (e - 52)"
proof -
  have "(0::real) < 2 powi e" by simp
  then have "0 < \<bar>x\<bar>" using assms(2) by linarith
  then have "x \<noteq> 0" by auto
  moreover have "ulp x = 2 powi (e - 52)"
    by (simp add: ulp_def exponent_eqI[OF assms(1-3)])
  ultimately show ?thesis
    using round_even_tie[OF assms(4)] assms(5) by (simp add: rnd_def)
qed

lemma rnd_sqrt_eqI:
  assumes "emin \<le> e" "(2 powi e)\<^sup>2 \<le> s" "s < (2 powi (e + 1))\<^sup>2"
    and "0 < n"
    and "((of_int n - 1 / 2) * 2 powi (e - 52))\<^sup>2 < s"
    and "s < ((of_int n + 1 / 2) * 2 powi (e - 52))\<^sup>2"
  shows "rnd (sqrt s) = of_int n * 2 powi (e - 52)"
proof (rule rnd_eqI[OF assms(1)])
  have "0 \<le> ((2::real) powi e)\<^sup>2" by simp
  then have s: "0 \<le> s" using assms(2) by linarith
  have u: "(0::real) < 2 powi (e - 52)" by simp
  have "2 powi e \<le> sqrt s" using assms(2) by (rule real_le_rsqrt)
  then show "2 powi e \<le> \<bar>sqrt s\<bar>" by simp
  have "sqrt s < 2 powi (e + 1)" using assms(3) by (intro real_less_lsqrt) simp_all
  then show "\<bar>sqrt s\<bar> < 2 powi (e + 1)" using s by simp
  have lo: "(of_int n - 1 / 2) * 2 powi (e - 52) < sqrt s"
    using assms(5) by (rule real_less_rsqrt)
  have "0 \<le> (real_of_int n + 1 / 2) * 2 powi (e - 52)"
    using assms(4) by (intro mult_nonneg_nonneg) simp_all
  then have hi: "sqrt s < (of_int n + 1 / 2) * 2 powi (e - 52)"
    using assms(6) by (intro real_less_lsqrt) simp_all
  from lo hi u have "of_int n - 1 / 2 < sqrt s / 2 powi (e - 52)"
    "sqrt s / 2 powi (e - 52) < of_int n + 1 / 2"
    by (simp_all add: pos_less_divide_eq pos_divide_less_eq)
  then show "\<bar>sqrt s / 2 powi (e - 52) - of_int n\<bar> < 1 / 2" by linarith
qed

section \<open>Rounded values\<close>

text \<open>
  The binary64 values of the decimal constants of the source, of the lightness of the
  colours that occur in the example bitmaps, and of the sums, differences and quotients
  that the analyser forms on these bitmaps. Each one is an instance of \<open>rnd_eqI\<close>,
  \<open>rnd_tie_eqI\<close> or \<open>rnd_sqrt_eqI\<close>, checked by arithmetic on rationals.
\<close>

lemma rnd_c299: "rnd (0.299) = 5386305154335113 / 18014398509481984"
proof -
  have "rnd (0.299) = of_int (5386305154335113) * 2 powi (-2 - 52)"
    by (rule rnd_eqI) (simp_all add: emin_def)
  then show ?thesis by simp
qed

lemma rnd_c299_n: "rnd (299 / 1000) = 5386305154335113 / 18014398509481984"
  using rnd_c299 by simp

lemma rnd_c587: "rnd (0.587) = 2643612981266481 / 4503599627370496"
proof -
  have "rnd (0.587) = of_int (5287225962532962) * 2 powi (-1 - 52)"
    by (rule rnd_eqI) (simp_all add: emin_def)
  then show ?thesis by simp
qed

lemma rnd_c587_n: "rnd (587 / 1000) = 2643612981266481 / 4503599627370496"
  using rnd_c587 by simp

lemma rnd_c114: "rnd (0.114) = 8214565720323785 / 72057594037927936"
proof -
  have "rnd (0.114) = of_int (8214565720323785) * 2 powi (-4 - 52)"
    by (rule rnd_eqI) (simp_all add: emin_def)
  then show ?thesis by simp
qed

lemma rnd_c114_n: "rnd (57 / 500) = 8214565720323785 / 72057594037927936"
  using rnd_c114 by simp

lemma rnd_c58: "rnd (0.58) = 5224175567749775 / 9007199254740992"
proof -
  have "rnd (0.58) = of_int (5224175567749775) * 2 powi (-1 - 52)"
    by (rule rnd_eqI) (simp_all add: emin_def)
  then show ?thesis by simp
qed

lemma rnd_c58_n: "rnd (29 / 50) = 5224175567749775 / 9007199254740992"
  using rnd_c58 by simp

lemma rnd_c42: "rnd (0.42) = 7566047373982433 / 18014398509481984"
proof -
  have "rnd (0.42) = of_int (7566047373982433) * 2 powi (-2 - 52)"
    by (rule rnd_eqI) (simp_all add: emin_def)
  then show ?thesis by simp
qed

lemma rnd_c42_n: "rnd (21 / 50) = 7566047373982433 / 18014398509481984"
  using rnd_c42 by simp

lemma rnd_c3: "rnd (0.3) = 5404319552844595 / 18014398509481984"
proof -
  have "rnd (0.3) = of_int (5404319552844595) * 2 powi (-2 - 52)"
    by (rule rnd_eqI) (simp_all add: emin_def)
  then show ?thesis by simp
qed

lemma rnd_c3_n: "rnd (3 / 10) = 5404319552844595 / 18014398509481984"
  using rnd_c3 by simp

lemma rnd_c1: "rnd (0.1) = 3602879701896397 / 36028797018963968"
proof -
  have "rnd (0.1) = of_int (7205759403792794) * 2 powi (-4 - 52)"
    by (rule rnd_eqI) (simp_all add: emin_def)
  then show ?thesis by simp
qed

lemma rnd_c1_n: "rnd (1 / 10) = 3602879701896397 / 36028797018963968"
  using rnd_c1 by simp

lemma rnd_c4: "rnd (0.4) = 3602879701896397 / 9007199254740992"
proof -
  have "rnd (0.4) = of_int (7205759403792794) * 2 powi (-2 - 52)"
    by (rule rnd_eqI) (simp_all add: emin_def)
  then show ?thesis by simp
qed

lemma rnd_c4_n: "rnd (2 / 5) = 3602879701896397 / 9007199254740992"
  using rnd_c4 by simp

lemma rnd_v1: "rnd (3602879701896397 / 4503599627370496) = 3602879701896397 / 4503599627370496"
proof -
  have "rnd (3602879701896397 / 4503599627370496) = of_int (7205759403792794) * 2 powi (-1 - 52)"
    by (rule rnd_eqI) (simp_all add: emin_def)
  then show ?thesis by simp
qed

lemma lc240_240_240_r1: "rnd (5386305154335113 / 18014398509481984 * 240) = 315603817636823 / 4398046511104"
proof -
  have "rnd (5386305154335113 / 18014398509481984 * 240) = of_int (5049661082189168) * 2 powi (6 - 52)"
    by (rule rnd_eqI) (simp_all add: emin_def)
  then show ?thesis by simp
qed

lemma lc240_240_240_r2: "rnd (315603817636823 / 4398046511104 * 240) = 4734057264552345 / 274877906944"
proof -
  have "rnd (315603817636823 / 4398046511104 * 240) = of_int (4734057264552345) * 2 powi (14 - 52)"
    by (rule rnd_eqI) (simp_all add: emin_def)
  then show ?thesis by simp
qed

lemma lc240_240_240_g1: "rnd (2643612981266481 / 4503599627370496 * 240) = 1239193584968663 / 8796093022208"
proof -
  have "rnd (2643612981266481 / 4503599627370496 * 240) = of_int (4956774339874652) * 2 powi (7 - 52)"
    by (rule rnd_eqI) (simp_all add: emin_def)
  then show ?thesis by simp
qed

lemma lc240_240_240_g2: "rnd (1239193584968663 / 8796093022208 * 240) = 2323487971816243 / 68719476736"
proof -
  have "rnd (1239193584968663 / 8796093022208 * 240) = of_int (4646975943632486) * 2 powi (15 - 52)"
    by (rule rnd_eqI) (simp_all add: emin_def)
  then show ?thesis by simp
qed

lemma lc240_240_240_b1: "rnd (8214565720323785 / 72057594037927936 * 240) = 1925288840700887 / 70368744177664"
proof -
  have "rnd (8214565720323785 / 72057594037927936 * 240) = of_int (7701155362803548) * 2 powi (4 - 52)"
    by (rule rnd_eqI) (simp_all add: emin_def)
  then show ?thesis by simp
qed

lemma lc240_240_240_b2: "rnd (1925288840700887 / 70368744177664 * 240) = 3609916576314163 / 549755813888"
proof -
  have "rnd (1925288840700887 / 70368744177664 * 240) = of_int (7219833152628326) * 2 powi (12 - 52)"
    by (rule rnd_eqI) (simp_all add: emin_def)
  then show ?thesis by simp
qed

lemma lc240_240_240_s1: "rnd (4734057264552345 / 274877906944 + 2323487971816243 / 68719476736) = 3507002287954329 / 68719476736"
proof -
  have "rnd (4734057264552345 / 274877906944 + 2323487971816243 / 68719476736) = of_int (7014004575908658) * 2 powi (15 - 52)"
    by (rule rnd_tie_eqI[where f = "7014004575908658"]) (simp_all add: emin_def)
  then show ?thesis by simp
qed

lemma lc240_240_240_s2: "rnd (3507002287954329 / 68719476736 + 3609916576314163 / 549755813888) = 7916483719987199 / 137438953472"
proof -
  have "rnd (3507002287954329 / 68719476736 + 3609916576314163 / 549755813888) = of_int (7916483719987199) * 2 powi (15 - 52)"
    by (rule rnd_eqI) (simp_all add: emin_def)
  then show ?thesis by simp
qed

lemma lc240_240_240_q: "rnd (sqrt (7916483719987199 / 137438953472)) = 8444249301319679 / 35184372088832"
proof -
  have "rnd (sqrt (7916483719987199 / 137438953472)) = of_int (8444249301319679) * 2 powi (7 - 52)"
    by (rule rnd_sqrt_eqI) (simp_all add: emin_def power2_eq_square)
  then show ?thesis by simp
qed

lemma lc240_240_240_d: "rnd (8444249301319679 / 35184372088832 / 255) = 8477364004462109 / 9007199254740992"
proof -
  have "rnd (8444249301319679 / 35184372088832 / 255) = of_int (8477364004462109) * 2 powi (-1 - 52)"
    by (rule rnd_eqI) (simp_all add: emin_def)
  then show ?thesis by simp
qed

lemma lightness64_c240_240_240: "lightness64 240 240 240 = 8477364004462109 / 9007199254740992"
  by (simp only: lightness64_def rnd_c299 rnd_c587 rnd_c114 lc240_240_240_r1 lc240_240_240_r2 lc240_240_240_g1 lc240_240_240_g2 lc240_240_240_b1 lc240_240_240_b2 lc240_240_240_s1 lc240_240_240_s2 lc240_240_240_q lc240_240_240_d)

lemma rnd_v2: "rnd (8477364004462109 / 9007199254740992) = 8477364004462109 / 9007199254740992"
proof -
  have "rnd (8477364004462109 / 9007199254740992) = of_int (8477364004462109) * 2 powi (-1 - 52)"
    by (rule rnd_eqI) (simp_all add: emin_def)
  then show ?thesis by simp
qed

lemma rnd_v3: "rnd (8477364004462109 / 4503599627370496) = 8477364004462109 / 4503599627370496"
proof -
  have "rnd (8477364004462109 / 4503599627370496) = of_int (8477364004462109) * 2 powi (0 - 52)"
    by (rule rnd_eqI) (simp_all add: emin_def)
  then show ?thesis by simp
qed

lemma rnd_v4: "rnd (25432092013386327 / 9007199254740992) = 3179011501673291 / 1125899906842624"
proof -
  have "rnd (25432092013386327 / 9007199254740992) = of_int (6358023003346582) * 2 powi (1 - 52)"
    by (rule rnd_eqI) (simp_all add: emin_def)
  then show ?thesis by simp
qed

lemma rnd_v5: "rnd (33909456017848437 / 9007199254740992) = 8477364004462109 / 2251799813685248"
proof -
  have "rnd (33909456017848437 / 9007199254740992) = of_int (8477364004462109) * 2 powi (1 - 52)"
    by (rule rnd_eqI) (simp_all add: emin_def)
  then show ?thesis by simp
qed

lemma rnd_v6: "rnd (1626594218356167 / 4503599627370496) = 1626594218356167 / 4503599627370496"
proof -
  have "rnd (1626594218356167 / 4503599627370496) = of_int (6506376873424668) * 2 powi (-2 - 52)"
    by (rule rnd_eqI) (simp_all add: emin_def)
  then show ?thesis by simp
qed

lemma rnd_v7: "rnd (6506376873424668 / 7566047373982433) = 3872843377038493 / 4503599627370496"
proof -
  have "rnd (6506376873424668 / 7566047373982433) = of_int (7745686754076986) * 2 powi (-1 - 52)"
    by (rule rnd_eqI) (simp_all add: emin_def)
  then show ?thesis by simp
qed

lemma lc10_10_10_r1: "rnd (5386305154335113 / 18014398509481984 * 10) = 6732881442918891 / 2251799813685248"
proof -
  have "rnd (5386305154335113 / 18014398509481984 * 10) = of_int (6732881442918891) * 2 powi (1 - 52)"
    by (rule rnd_eqI) (simp_all add: emin_def)
  then show ?thesis by simp
qed

lemma lc10_10_10_r2: "rnd (6732881442918891 / 2251799813685248 * 10) = 4208050901824307 / 140737488355328"
proof -
  have "rnd (6732881442918891 / 2251799813685248 * 10) = of_int (8416101803648614) * 2 powi (4 - 52)"
    by (rule rnd_eqI) (simp_all add: emin_def)
  then show ?thesis by simp
qed

lemma lc10_10_10_g1: "rnd (2643612981266481 / 4503599627370496 * 10) = 3304516226583101 / 562949953421312"
proof -
  have "rnd (2643612981266481 / 4503599627370496 * 10) = of_int (6609032453166202) * 2 powi (2 - 52)"
    by (rule rnd_tie_eqI[where f = "6609032453166202"]) (simp_all add: emin_def)
  then show ?thesis by simp
qed

lemma lc10_10_10_g2: "rnd (3304516226583101 / 562949953421312 * 10) = 1032661320807219 / 17592186044416"
proof -
  have "rnd (3304516226583101 / 562949953421312 * 10) = of_int (8261290566457752) * 2 powi (5 - 52)"
    by (rule rnd_tie_eqI[where f = "8261290566457752"]) (simp_all add: emin_def)
  then show ?thesis by simp
qed

lemma lc10_10_10_b1: "rnd (8214565720323785 / 72057594037927936 * 10) = 2567051787601183 / 2251799813685248"
proof -
  have "rnd (8214565720323785 / 72057594037927936 * 10) = of_int (5134103575202366) * 2 powi (0 - 52)"
    by (rule rnd_eqI) (simp_all add: emin_def)
  then show ?thesis by simp
qed

lemma lc10_10_10_b2: "rnd (2567051787601183 / 2251799813685248 * 10) = 3208814734501479 / 281474976710656"
proof -
  have "rnd (2567051787601183 / 2251799813685248 * 10) = of_int (6417629469002958) * 2 powi (3 - 52)"
    by (rule rnd_tie_eqI[where f = "6417629469002957"]) (simp_all add: emin_def)
  then show ?thesis by simp
qed

lemma lc10_10_10_s1: "rnd (4208050901824307 / 140737488355328 + 1032661320807219 / 17592186044416) = 3117335367070515 / 35184372088832"
proof -
  have "rnd (4208050901824307 / 140737488355328 + 1032661320807219 / 17592186044416) = of_int (6234670734141030) * 2 powi (6 - 52)"
    by (rule rnd_tie_eqI[where f = "6234670734141029"]) (simp_all add: emin_def)
  then show ?thesis by simp
qed

lemma lc10_10_10_s2: "rnd (3117335367070515 / 35184372088832 + 3208814734501479 / 281474976710656) = 100"
proof -
  have "rnd (3117335367070515 / 35184372088832 + 3208814734501479 / 281474976710656) = of_int (7036874417766400) * 2 powi (6 - 52)"
    by (rule rnd_eqI) (simp_all add: emin_def)
  then show ?thesis by simp
qed

lemma lc10_10_10_q: "rnd (sqrt (100)) = 10"
proof -
  have "rnd (sqrt (100)) = of_int (5629499534213120) * 2 powi (3 - 52)"
    by (rule rnd_sqrt_eqI) (simp_all add: emin_def power2_eq_square)
  then show ?thesis by simp
qed

lemma lc10_10_10_d: "rnd (10 / 255) = 1412894000743685 / 36028797018963968"
proof -
  have "rnd (10 / 255) = of_int (5651576002974740) * 2 powi (-5 - 52)"
    by (rule rnd_eqI) (simp_all add: emin_def)
  then show ?thesis by simp
qed

lemma lightness64_c10_10_10: "lightness64 10 10 10 = 1412894000743685 / 36028797018963968"
  by (simp only: lightness64_def rnd_c299 rnd_c587 rnd_c114 lc10_10_10_r1 lc10_10_10_r2 lc10_10_10_g1 lc10_10_10_g2 lc10_10_10_b1 lc10_10_10_b2 lc10_10_10_s1 lc10_10_10_s2 lc10_10_10_q lc10_10_10_d)

lemma rnd_v8: "rnd (1412894000743685 / 36028797018963968) = 1412894000743685 / 36028797018963968"
proof -
  have "rnd (1412894000743685 / 36028797018963968) = of_int (5651576002974740) * 2 powi (-5 - 52)"
    by (rule rnd_eqI) (simp_all add: emin_def)
  then show ?thesis by simp
qed

lemma rnd_v9: "rnd (1412894000743685 / 18014398509481984) = 1412894000743685 / 18014398509481984"
proof -
  have "rnd (1412894000743685 / 18014398509481984) = of_int (5651576002974740) * 2 powi (-4 - 52)"
    by (rule rnd_eqI) (simp_all add: emin_def)
  then show ?thesis by simp
qed

lemma rnd_v10: "rnd (4238682002231055 / 36028797018963968) = 4238682002231055 / 36028797018963968"
proof -
  have "rnd (4238682002231055 / 36028797018963968) = of_int (8477364004462110) * 2 powi (-4 - 52)"
    by (rule rnd_eqI) (simp_all add: emin_def)
  then show ?thesis by simp
qed

lemma rnd_v11: "rnd (1412894000743685 / 9007199254740992) = 1412894000743685 / 9007199254740992"
proof -
  have "rnd (1412894000743685 / 9007199254740992) = of_int (5651576002974740) * 2 powi (-3 - 52)"
    by (rule rnd_eqI) (simp_all add: emin_def)
  then show ?thesis by simp
qed

lemma rnd_v12: "rnd (13719200747221181 / 36028797018963968) = 3429800186805295 / 9007199254740992"
proof -
  have "rnd (13719200747221181 / 36028797018963968) = of_int (6859600373610590) * 2 powi (-2 - 52)"
    by (rule rnd_tie_eqI[where f = "6859600373610590"]) (simp_all add: emin_def)
  then show ?thesis by simp
qed

lemma rnd_v13: "rnd (6859600373610590 / 7566047373982433) = 2041547730241247 / 2251799813685248"
proof -
  have "rnd (6859600373610590 / 7566047373982433) = of_int (8166190920964988) * 2 powi (-1 - 52)"
    by (rule rnd_eqI) (simp_all add: emin_def)
  then show ?thesis by simp
qed

lemma rnd_v14: "rnd (3602879701896397 / 9007199254740992) = 3602879701896397 / 9007199254740992"
proof -
  have "rnd (3602879701896397 / 9007199254740992) = of_int (7205759403792794) * 2 powi (-2 - 52)"
    by (rule rnd_eqI) (simp_all add: emin_def)
  then show ?thesis by simp
qed

lemma lc255_255_255_r1: "rnd (5386305154335113 / 18014398509481984 * 255) = 5365264899825991 / 70368744177664"
proof -
  have "rnd (5386305154335113 / 18014398509481984 * 255) = of_int (5365264899825991) * 2 powi (6 - 52)"
    by (rule rnd_eqI) (simp_all add: emin_def)
  then show ?thesis by simp
qed

lemma lc255_255_255_r2: "rnd (5365264899825991 / 70368744177664 * 255) = 2672153416905523 / 137438953472"
proof -
  have "rnd (5365264899825991 / 70368744177664 * 255) = of_int (5344306833811046) * 2 powi (14 - 52)"
    by (rule rnd_eqI) (simp_all add: emin_def)
  then show ?thesis by simp
qed

lemma lc255_255_255_g1: "rnd (2643612981266481 / 4503599627370496 * 255) = 2633286368058409 / 17592186044416"
proof -
  have "rnd (2643612981266481 / 4503599627370496 * 255) = of_int (5266572736116818) * 2 powi (7 - 52)"
    by (rule rnd_eqI) (simp_all add: emin_def)
  then show ?thesis by simp
qed

lemma lc255_255_255_g2: "rnd (2633286368058409 / 17592186044416 * 255) = 2623000093183181 / 68719476736"
proof -
  have "rnd (2633286368058409 / 17592186044416 * 255) = of_int (5246000186366362) * 2 powi (15 - 52)"
    by (rule rnd_eqI) (simp_all add: emin_def)
  then show ?thesis by simp
qed

lemma lc255_255_255_b1: "rnd (8214565720323785 / 72057594037927936 * 255) = 4091238786489385 / 140737488355328"
proof -
  have "rnd (8214565720323785 / 72057594037927936 * 255) = of_int (8182477572978770) * 2 powi (4 - 52)"
    by (rule rnd_eqI) (simp_all add: emin_def)
  then show ?thesis by simp
qed

lemma lc255_255_255_b2: "rnd (4091238786489385 / 140737488355328 * 255) = 4075257384979661 / 549755813888"
proof -
  have "rnd (4091238786489385 / 140737488355328 * 255) = of_int (8150514769959322) * 2 powi (12 - 52)"
    by (rule rnd_eqI) (simp_all add: emin_def)
  then show ?thesis by simp
qed

lemma lc255_255_255_s1: "rnd (2672153416905523 / 137438953472 + 2623000093183181 / 68719476736) = 7918153603271885 / 137438953472"
proof -
  have "rnd (2672153416905523 / 137438953472 + 2623000093183181 / 68719476736) = of_int (7918153603271885) * 2 powi (15 - 52)"
    by (rule rnd_eqI) (simp_all add: emin_def)
  then show ?thesis by simp
qed

lemma lc255_255_255_s2: "rnd (7918153603271885 / 137438953472 + 4075257384979661 / 549755813888) = 65025"
proof -
  have "rnd (7918153603271885 / 137438953472 + 4075257384979661 / 549755813888) = of_int (8936967949516800) * 2 powi (15 - 52)"
    by (rule rnd_eqI) (simp_all add: emin_def)
  then show ?thesis by simp
qed

lemma lc255_255_255_q: "rnd (sqrt (65025)) = 255"
proof -
  have "rnd (sqrt (65025)) = of_int (8972014882652160) * 2 powi (7 - 52)"
    by (rule rnd_sqrt_eqI) (simp_all add: emin_def power2_eq_square)
  then show ?thesis by simp
qed

lemma lc255_255_255_d: "rnd (255 / 255) = 1"
proof -
  have "rnd (255 / 255) = of_int (4503599627370496) * 2 powi (0 - 52)"
    by (rule rnd_eqI) (simp_all add: emin_def)
  then show ?thesis by simp
qed

lemma lightness64_c255_255_255: "lightness64 255 255 255 = 1"
  by (simp only: lightness64_def rnd_c299 rnd_c587 rnd_c114 lc255_255_255_r1 lc255_255_255_r2 lc255_255_255_g1 lc255_255_255_g2 lc255_255_255_b1 lc255_255_255_b2 lc255_255_255_s1 lc255_255_255_s2 lc255_255_255_q lc255_255_255_d)

lemma rnd_v15: "rnd (3783023686991217 / 9007199254740992) = 3783023686991217 / 9007199254740992"
proof -
  have "rnd (3783023686991217 / 9007199254740992) = of_int (7566047373982434) * 2 powi (-2 - 52)"
    by (rule rnd_eqI) (simp_all add: emin_def)
  then show ?thesis by simp
qed

lemma rnd_v16: "rnd (7566047373982434 / 7566047373982433) = 4503599627370497 / 4503599627370496"
proof -
  have "rnd (7566047373982434 / 7566047373982433) = of_int (4503599627370497) * 2 powi (0 - 52)"
    by (rule rnd_eqI) (simp_all add: emin_def)
  then show ?thesis by simp
qed

lemma rnd_v17: "rnd (10808639105689191 / 9007199254740992) = 1351079888211149 / 1125899906842624"
proof -
  have "rnd (10808639105689191 / 9007199254740992) = of_int (5404319552844596) * 2 powi (0 - 52)"
    by (rule rnd_tie_eqI[where f = "5404319552844595"]) (simp_all add: emin_def)
  then show ?thesis by simp
qed

lemma lc121_121_121_r1: "rnd (5386305154335113 / 18014398509481984 * 121) = 1272935397801853 / 35184372088832"
proof -
  have "rnd (5386305154335113 / 18014398509481984 * 121) = of_int (5091741591207412) * 2 powi (5 - 52)"
    by (rule rnd_eqI) (simp_all add: emin_def)
  then show ?thesis by simp
qed

lemma lc121_121_121_r2: "rnd (1272935397801853 / 35184372088832 * 121) = 4813286972938257 / 1099511627776"
proof -
  have "rnd (1272935397801853 / 35184372088832 * 121) = of_int (4813286972938257) * 2 powi (12 - 52)"
    by (rule rnd_eqI) (simp_all add: emin_def)
  then show ?thesis by simp
qed

lemma lc121_121_121_g1: "rnd (2643612981266481 / 4503599627370496 * 121) = 4998080792706941 / 70368744177664"
proof -
  have "rnd (2643612981266481 / 4503599627370496 * 121) = of_int (4998080792706941) * 2 powi (6 - 52)"
    by (rule rnd_eqI) (simp_all add: emin_def)
  then show ?thesis by simp
qed

lemma lc121_121_121_g2: "rnd (4998080792706941 / 70368744177664 * 121) = 1181187062338945 / 137438953472"
proof -
  have "rnd (4998080792706941 / 70368744177664 * 121) = of_int (4724748249355780) * 2 powi (13 - 52)"
    by (rule rnd_eqI) (simp_all add: emin_def)
  then show ?thesis by simp
qed

lemma lc121_121_121_b1: "rnd (8214565720323785 / 72057594037927936 * 121) = 3882665828746789 / 281474976710656"
proof -
  have "rnd (8214565720323785 / 72057594037927936 * 121) = of_int (7765331657493578) * 2 powi (3 - 52)"
    by (rule rnd_eqI) (simp_all add: emin_def)
  then show ?thesis by simp
qed

lemma lc121_121_121_b2: "rnd (3882665828746789 / 281474976710656 * 121) = 3670332541237199 / 2199023255552"
proof -
  have "rnd (3882665828746789 / 281474976710656 * 121) = of_int (7340665082474398) * 2 powi (10 - 52)"
    by (rule rnd_eqI) (simp_all add: emin_def)
  then show ?thesis by simp
qed

lemma lc121_121_121_s1: "rnd (4813286972938257 / 1099511627776 + 1181187062338945 / 137438953472) = 1782847933956227 / 137438953472"
proof -
  have "rnd (4813286972938257 / 1099511627776 + 1181187062338945 / 137438953472) = of_int (7131391735824908) * 2 powi (13 - 52)"
    by (rule rnd_tie_eqI[where f = "7131391735824908"]) (simp_all add: emin_def)
  then show ?thesis by simp
qed

lemma lc121_121_121_s2: "rnd (1782847933956227 / 137438953472 + 3670332541237199 / 2199023255552) = 14641"
proof -
  have "rnd (1782847933956227 / 137438953472 + 3670332541237199 / 2199023255552) = of_int (8048974871134208) * 2 powi (13 - 52)"
    by (rule rnd_eqI) (simp_all add: emin_def)
  then show ?thesis by simp
qed

lemma lc121_121_121_q: "rnd (sqrt (14641)) = 121"
proof -
  have "rnd (sqrt (14641)) = of_int (8514618045497344) * 2 powi (6 - 52)"
    by (rule rnd_sqrt_eqI) (simp_all add: emin_def power2_eq_square)
  then show ?thesis by simp
qed

lemma lc121_121_121_d: "rnd (121 / 255) = 4274004352249647 / 9007199254740992"
proof -
  have "rnd (121 / 255) = of_int (8548008704499294) * 2 powi (-2 - 52)"
    by (rule rnd_eqI) (simp_all add: emin_def)
  then show ?thesis by simp
qed

lemma lightness64_c121_121_121: "lightness64 121 121 121 = 4274004352249647 / 9007199254740992"
  by (simp only: lightness64_def rnd_c299 rnd_c587 rnd_c114 lc121_121_121_r1 lc121_121_121_r2 lc121_121_121_g1 lc121_121_121_g2 lc121_121_121_b1 lc121_121_121_b2 lc121_121_121_s1 lc121_121_121_s2 lc121_121_121_q lc121_121_121_d)

lemma rnd_v18: "rnd (4274004352249647 / 9007199254740992) = 4274004352249647 / 9007199254740992"
proof -
  have "rnd (4274004352249647 / 9007199254740992) = of_int (8548008704499294) * 2 powi (-2 - 52)"
    by (rule rnd_eqI) (simp_all add: emin_def)
  then show ?thesis by simp
qed

lemma rnd_v19: "rnd (4274004352249647 / 4503599627370496) = 4274004352249647 / 4503599627370496"
proof -
  have "rnd (4274004352249647 / 4503599627370496) = of_int (8548008704499294) * 2 powi (-1 - 52)"
    by (rule rnd_eqI) (simp_all add: emin_def)
  then show ?thesis by simp
qed

lemma rnd_v20: "rnd (12822013056748941 / 9007199254740992) = 3205503264187235 / 2251799813685248"
proof -
  have "rnd (12822013056748941 / 9007199254740992) = of_int (6411006528374470) * 2 powi (0 - 52)"
    by (rule rnd_tie_eqI[where f = "6411006528374470"]) (simp_all add: emin_def)
  then show ?thesis by simp
qed

lemma rnd_v21: "rnd (3205503264187235 / 6755399441055744) = 8548008704499293 / 18014398509481984"
proof -
  have "rnd (3205503264187235 / 6755399441055744) = of_int (8548008704499293) * 2 powi (-2 - 52)"
    by (rule rnd_eqI) (simp_all add: emin_def)
  then show ?thesis by simp
qed

lemma lc128_128_128_r1: "rnd (5386305154335113 / 18014398509481984 * 128) = 5386305154335113 / 140737488355328"
proof -
  have "rnd (5386305154335113 / 18014398509481984 * 128) = of_int (5386305154335113) * 2 powi (5 - 52)"
    by (rule rnd_eqI) (simp_all add: emin_def)
  then show ?thesis by simp
qed

lemma lc128_128_128_r2: "rnd (5386305154335113 / 140737488355328 * 128) = 5386305154335113 / 1099511627776"
proof -
  have "rnd (5386305154335113 / 140737488355328 * 128) = of_int (5386305154335113) * 2 powi (12 - 52)"
    by (rule rnd_eqI) (simp_all add: emin_def)
  then show ?thesis by simp
qed

lemma lc128_128_128_g1: "rnd (2643612981266481 / 4503599627370496 * 128) = 2643612981266481 / 35184372088832"
proof -
  have "rnd (2643612981266481 / 4503599627370496 * 128) = of_int (5287225962532962) * 2 powi (6 - 52)"
    by (rule rnd_eqI) (simp_all add: emin_def)
  then show ?thesis by simp
qed

lemma lc128_128_128_g2: "rnd (2643612981266481 / 35184372088832 * 128) = 2643612981266481 / 274877906944"
proof -
  have "rnd (2643612981266481 / 35184372088832 * 128) = of_int (5287225962532962) * 2 powi (13 - 52)"
    by (rule rnd_eqI) (simp_all add: emin_def)
  then show ?thesis by simp
qed

lemma lc128_128_128_b1: "rnd (8214565720323785 / 72057594037927936 * 128) = 8214565720323785 / 562949953421312"
proof -
  have "rnd (8214565720323785 / 72057594037927936 * 128) = of_int (8214565720323785) * 2 powi (3 - 52)"
    by (rule rnd_eqI) (simp_all add: emin_def)
  then show ?thesis by simp
qed

lemma lc128_128_128_b2: "rnd (8214565720323785 / 562949953421312 * 128) = 8214565720323785 / 4398046511104"
proof -
  have "rnd (8214565720323785 / 562949953421312 * 128) = of_int (8214565720323785) * 2 powi (10 - 52)"
    by (rule rnd_eqI) (simp_all add: emin_def)
  then show ?thesis by simp
qed

lemma lc128_128_128_s1: "rnd (5386305154335113 / 1099511627776 + 2643612981266481 / 274877906944) = 3990189269850259 / 274877906944"
proof -
  have "rnd (5386305154335113 / 1099511627776 + 2643612981266481 / 274877906944) = of_int (7980378539700518) * 2 powi (13 - 52)"
    by (rule rnd_tie_eqI[where f = "7980378539700518"]) (simp_all add: emin_def)
  then show ?thesis by simp
qed

lemma lc128_128_128_s2: "rnd (3990189269850259 / 274877906944 + 8214565720323785 / 4398046511104) = 9007199254740991 / 549755813888"
proof -
  have "rnd (3990189269850259 / 274877906944 + 8214565720323785 / 4398046511104) = of_int (9007199254740991) * 2 powi (13 - 52)"
    by (rule rnd_eqI) (simp_all add: emin_def)
  then show ?thesis by simp
qed

lemma lc128_128_128_q: "rnd (sqrt (9007199254740991 / 549755813888)) = 9007199254740991 / 70368744177664"
proof -
  have "rnd (sqrt (9007199254740991 / 549755813888)) = of_int (9007199254740991) * 2 powi (6 - 52)"
    by (rule rnd_sqrt_eqI) (simp_all add: emin_def power2_eq_square)
  then show ?thesis by simp
qed

lemma lc128_128_128_d: "rnd (9007199254740991 / 70368744177664 / 255) = 282578800148737 / 562949953421312"
proof -
  have "rnd (9007199254740991 / 70368744177664 / 255) = of_int (4521260802379792) * 2 powi (-1 - 52)"
    by (rule rnd_eqI) (simp_all add: emin_def)
  then show ?thesis by simp
qed

lemma lightness64_c128_128_128: "lightness64 128 128 128 = 282578800148737 / 562949953421312"
  by (simp only: lightness64_def rnd_c299 rnd_c587 rnd_c114 lc128_128_128_r1 lc128_128_128_r2 lc128_128_128_g1 lc128_128_128_g2 lc128_128_128_b1 lc128_128_128_b2 lc128_128_128_s1 lc128_128_128_s2 lc128_128_128_q lc128_128_128_d)

lemma rnd_v22: "rnd (282578800148737 / 562949953421312) = 282578800148737 / 562949953421312"
proof -
  have "rnd (282578800148737 / 562949953421312) = of_int (4521260802379792) * 2 powi (-1 - 52)"
    by (rule rnd_eqI) (simp_all add: emin_def)
  then show ?thesis by simp
qed

lemma rnd_v23: "rnd (282578800148737 / 281474976710656) = 282578800148737 / 281474976710656"
proof -
  have "rnd (282578800148737 / 281474976710656) = of_int (4521260802379792) * 2 powi (0 - 52)"
    by (rule rnd_eqI) (simp_all add: emin_def)
  then show ?thesis by simp
qed

lemma rnd_v24: "rnd (847736400446211 / 562949953421312) = 847736400446211 / 562949953421312"
proof -
  have "rnd (847736400446211 / 562949953421312) = of_int (6781891203569688) * 2 powi (0 - 52)"
    by (rule rnd_eqI) (simp_all add: emin_def)
  then show ?thesis by simp
qed

lemma rnd_v25: "rnd (282578800148737 / 140737488355328) = 282578800148737 / 140737488355328"
proof -
  have "rnd (282578800148737 / 140737488355328) = of_int (4521260802379792) * 2 powi (1 - 52)"
    by (rule rnd_eqI) (simp_all add: emin_def)
  then show ?thesis by simp
qed

lemma rnd_v26: "rnd (1 / 2) = 1 / 2"
proof -
  have "rnd (1 / 2) = of_int (4503599627370496) * 2 powi (-1 - 52)"
    by (rule rnd_eqI) (simp_all add: emin_def)
  then show ?thesis by simp
qed

lemma rnd_v27: "rnd (845528753570049 / 562949953421312) = 845528753570049 / 562949953421312"
proof -
  have "rnd (845528753570049 / 562949953421312) = of_int (6764230028560392) * 2 powi (0 - 52)"
    by (rule rnd_eqI) (simp_all add: emin_def)
  then show ?thesis by simp
qed

lemma rnd_v28: "rnd (845528753570049 / 1125899906842624) = 845528753570049 / 1125899906842624"
proof -
  have "rnd (845528753570049 / 1125899906842624) = of_int (6764230028560392) * 2 powi (-1 - 52)"
    by (rule rnd_eqI) (simp_all add: emin_def)
  then show ?thesis by simp
qed

lemma rnd_v29: "rnd (3) = 3"
proof -
  have "rnd (3) = of_int (6755399441055744) * 2 powi (1 - 52)"
    by (rule rnd_eqI) (simp_all add: emin_def)
  then show ?thesis by simp
qed

lemma rnd_c42_idem: "rnd (7566047373982433 / 18014398509481984) = 7566047373982433 / 18014398509481984"
proof -
  have "rnd (7566047373982433 / 18014398509481984) = of_int (7566047373982433) * 2 powi (-2 - 52)"
    by (rule rnd_eqI) (simp_all add: emin_def)
  then show ?thesis by simp
qed

lemmas rnd_values = rnd_c299_n rnd_c587_n rnd_c114_n rnd_c58_n rnd_c42_n rnd_c3_n rnd_c1_n rnd_c4_n rnd_v1 rnd_v2 rnd_v3 rnd_v4 rnd_v5 rnd_v6 rnd_v7 rnd_v8 rnd_v9 rnd_v10 rnd_v11 rnd_v12 rnd_v13 rnd_v14 rnd_v15 rnd_v16 rnd_v17 rnd_v18 rnd_v19 rnd_v20 rnd_v21 rnd_v22 rnd_v23 rnd_v24 rnd_v25 rnd_v26 rnd_v27 rnd_v28 rnd_v29 lightness64_c240_240_240 lightness64_c10_10_10 lightness64_c255_255_255 lightness64_c121_121_121 lightness64_c128_128_128

section \<open>Lightness is monotone and bounded\<close>

lemma lightness64_0: "lightness64 0 0 0 = 0"
  by (simp add: lightness64_def)

lemma lightness64_mono:
  assumes "0 \<le> r" "r \<le> r'" "0 \<le> g" "g \<le> g'" "0 \<le> b" "b \<le> b'"
  shows "lightness64 r g b \<le> lightness64 r' g' b'"
proof -
  have term_mono: "0 \<le> rnd (rnd (rnd c * v) * v) \<and> rnd (rnd (rnd c * v) * v) \<le> rnd (rnd (rnd c * v') * v')"
    if "0 \<le> c" "0 \<le> v" "v \<le> v'" for c v v' :: real
  proof -
    have c: "0 \<le> rnd c" using that(1) by (rule rnd_nonneg)
    have v': "0 \<le> v'" using that(2,3) by simp
    have p: "0 \<le> rnd c * v" using c that(2) by (rule mult_nonneg_nonneg)
    have a: "0 \<le> rnd (rnd c * v)" using p by (rule rnd_nonneg)
    have "rnd c * v \<le> rnd c * v'" using c that(3) by (rule mult_left_mono[rotated])
    then have "rnd (rnd c * v) \<le> rnd (rnd c * v')"
      using p by (intro rnd_mono)
    then have "rnd (rnd c * v) * v \<le> rnd (rnd c * v') * v'"
      using a that(2,3) by (intro mult_mono) simp_all
    moreover have "0 \<le> rnd (rnd c * v) * v" using a that(2) by (intro mult_nonneg_nonneg)
    ultimately show ?thesis by (simp add: rnd_mono rnd_nonneg)
  qed
  define A where "A = rnd (rnd (rnd 0.299 * r) * r)"
  define A' where "A' = rnd (rnd (rnd 0.299 * r') * r')"
  define B where "B = rnd (rnd (rnd 0.587 * g) * g)"
  define B' where "B' = rnd (rnd (rnd 0.587 * g') * g')"
  define C where "C = rnd (rnd (rnd 0.114 * b) * b)"
  define C' where "C' = rnd (rnd (rnd 0.114 * b') * b')"
  have A: "0 \<le> A" "A \<le> A'" using term_mono[of "0.299" r r'] assms by (simp_all add: A_def A'_def)
  have B: "0 \<le> B" "B \<le> B'" using term_mono[of "0.587" g g'] assms by (simp_all add: B_def B'_def)
  have C: "0 \<le> C" "C \<le> C'" using term_mono[of "0.114" b b'] assms by (simp_all add: C_def C'_def)
  have s1: "0 \<le> rnd (A + B)" "rnd (A + B) \<le> rnd (A' + B')"
    using A B by (simp_all add: rnd_mono rnd_nonneg)
  have s2: "0 \<le> rnd (rnd (A + B) + C)" "rnd (rnd (A + B) + C) \<le> rnd (rnd (A' + B') + C')"
    using s1 C by (simp_all add: rnd_mono rnd_nonneg)
  have q: "0 \<le> rnd (sqrt (rnd (rnd (A + B) + C)))"
    "rnd (sqrt (rnd (rnd (A + B) + C))) \<le> rnd (sqrt (rnd (rnd (A' + B') + C')))"
    using s2 by (simp_all add: rnd_mono rnd_nonneg)
  have d0: "0 \<le> rnd (sqrt (rnd (rnd (A + B) + C))) / 255"
    using q(1) by simp
  have d: "rnd (sqrt (rnd (rnd (A + B) + C))) / 255
        \<le> rnd (sqrt (rnd (rnd (A' + B') + C'))) / 255"
    using q(2) by (rule divide_right_mono) simp
  have "rnd (rnd (sqrt (rnd (rnd (A + B) + C))) / 255)
        \<le> rnd (rnd (sqrt (rnd (rnd (A' + B') + C'))) / 255)"
    using d0 d by (rule rnd_mono)
  then show ?thesis
    by (simp add: lightness64_def A_def A'_def B_def B'_def C_def C'_def)
qed

lemma lightness64_bounds:
  assumes "0 \<le> r" "r \<le> 255" "0 \<le> g" "g \<le> 255" "0 \<le> b" "b \<le> 255"
  shows "0 \<le> lightness64 r g b \<and> lightness64 r g b \<le> 1"
  using lightness64_mono[of 0 r 0 g 0 b] lightness64_mono[OF assms]
  by (simp add: lightness64_0 lightness64_c255_255_255 assms)

section \<open>Typed arrays\<close>

lemma array_length_bound: "array_length a < 2 ^ 53"
  using Rep_Uint8Array[of a] by (simp add: array_length_def)

lemma Uint8Array_from_rep:
  assumes "length bs < 2 ^ 53"
  shows "Rep_Uint8Array (Uint8Array_from bs) = bs"
proof -
  have "take (2 ^ 53 - 1) bs = bs" using assms by simp
  then show ?thesis using assms by (simp add: Uint8Array_from_def Abs_Uint8Array_inverse)
qed

lemma array_length_from: "length bs < 2 ^ 53 \<Longrightarrow> array_length (Uint8Array_from bs) = length bs"
  by (simp add: array_length_def Uint8Array_from_rep)

lemma array_get_from: "length bs < 2 ^ 53 \<Longrightarrow> array_get (Uint8Array_from bs) i = bs ! i"
  by (simp add: array_get_def Uint8Array_from_rep)

section \<open>The scans compute running sums over pixel sets\<close>

lemma index_in_range:
  assumes "well_formed img" "x < width img" "y < height img" "k < 4"
  shows "(y * width img + x) * 4 + k < array_length (data img)"
proof -
  have "y * width img + x < Suc y * width img" using assms(2) by simp
  also have "\<dots> \<le> height img * width img"
    using assms(3) by (intro mult_le_mono1) simp
  finally have "(y * width img + x) * 4 + k < height img * width img * 4"
    using assms(4) by simp
  then show ?thesis using assms(1) by (simp add: well_formed_def mult.commute)
qed

lemma data_at_channel:
  assumes "well_formed img" "x < width img" "y < height img" "k < 4"
  shows "data_at (data img) ((y * width img + x) * 4 + k) = Num (real (channel img k x y))"
  using index_in_range[OF assms] by (simp add: data_at_def channel_def)

lemma channel_le: "channel img k x y \<le> 255"
proof -
  have "unat (array_get (data img) ((y * width img + x) * 4 + k)) < 2 ^ LENGTH(8)"
    by (rule unsigned_less)
  then show ?thesis by (simp add: channel_def)
qed

lemma perceivedLightness_Num:
  assumes "0 \<le> r" "0 \<le> g" "0 \<le> b"
  shows "perceivedLightness (Num r) (Num g) (Num b) = Num (lightness64 r g b)"
proof -
  have t: "0 \<le> rnd (rnd (rnd c * v) * v)" if "0 \<le> c" "0 \<le> v" for c v :: real
  proof -
    have "0 \<le> rnd c" using that(1) by (rule rnd_nonneg)
    then have "0 \<le> rnd c * v" using that(2) by (rule mult_nonneg_nonneg)
    then have "0 \<le> rnd (rnd c * v)" by (rule rnd_nonneg)
    then have "0 \<le> rnd (rnd c * v) * v" using that(2) by (rule mult_nonneg_nonneg)
    then show ?thesis by (rule rnd_nonneg)
  qed
  have "0 \<le> rnd (rnd (rnd 0.299 * r) * r) + rnd (rnd (rnd 0.587 * g) * g)"
    using t[of "0.299" r] t[of "0.587" g] assms by simp
  then have "0 \<le> rnd (rnd (rnd (rnd 0.299 * r) * r) + rnd (rnd (rnd 0.587 * g) * g))"
    by (rule rnd_nonneg)
  then have "0 \<le> rnd (rnd (rnd (rnd 0.299 * r) * r) + rnd (rnd (rnd 0.587 * g) * g))
                  + rnd (rnd (rnd 0.114 * b) * b)"
    using t[of "0.114" b] assms by simp
  then have "0 \<le> rnd (rnd (rnd (rnd (rnd 0.299 * r) * r) + rnd (rnd (rnd 0.587 * g) * g))
                  + rnd (rnd (rnd 0.114 * b) * b))"
    by (rule rnd_nonneg)
  then show ?thesis
    by (simp add: perceivedLightness_def lit_def lightness64_def not_less)
qed

lemma pixel_lightness:
  assumes "well_formed img" "x < width img" "y < height img"
  shows "perceivedLightness (data_at (data img) ((y * width img + x) * 4))
           (data_at (data img) ((y * width img + x) * 4 + 1))
           (data_at (data img) ((y * width img + x) * 4 + 2)) = Num (lightness img x y)"
  using data_at_channel[OF assms, of 0] data_at_channel[OF assms, of 1]
    data_at_channel[OF assms, of 2]
  by (simp add: perceivedLightness_Num lightness_def)

lemma lightness_bounds: "0 \<le> lightness img x y \<and> lightness img x y \<le> 1"
  unfolding lightness_def
  using channel_le[of img 0 x y] channel_le[of img 1 x y] channel_le[of img 2 x y]
  by (intro lightness64_bounds) simp_all

text \<open>A scan that skips some elements is a fold over the elements it keeps.\<close>

lemma fold_filter_count:
  fixes cnt :: "'s \<Rightarrow> nat"
  assumes "\<And>x s. x \<in> set xs \<Longrightarrow> cnt (f x s) = cnt s + (if P x then 1 else 0)"
  shows "cnt (fold f xs s) = cnt s + length (filter P xs)"
  using assms by (induction xs arbitrary: s) simp_all

lemma fold_filter_accum:
  fixes acc :: "'s \<Rightarrow> number"
  assumes "\<And>x s a. x \<in> set xs \<Longrightarrow> acc s = Num a \<Longrightarrow> acc (f x s) = Num (if P x then g a x else a)"
    and "acc s = Num a"
  shows "acc (fold f xs s) = Num (foldl g a (filter P xs))"
  using assms by (induction xs arbitrary: s a) simp_all

lemma fold_rows_count:
  fixes cnt :: "'s \<Rightarrow> nat"
  assumes "\<And>y s. y \<in> set ys \<Longrightarrow> cnt (F y s) = cnt s + length (filter P (row y))"
  shows "cnt (fold F ys s) = cnt s + length (filter P (concat (map row ys)))"
  using assms by (induction ys arbitrary: s) simp_all

lemma fold_rows_accum:
  fixes acc :: "'s \<Rightarrow> number"
  assumes "\<And>y s a. y \<in> set ys \<Longrightarrow> acc s = Num a \<Longrightarrow> acc (F y s) = Num (foldl g a (filter P (row y)))"
    and "acc s = Num a"
  shows "acc (fold F ys s) = Num (foldl g a (filter P (concat (map row ys))))"
  using assms by (induction ys arbitrary: s a) simp_all

text \<open>Pixels in row-major order\<close>

lemma set_row_major: "set (row_major img) = pixels img"
  by (auto simp: row_major_def pixels_def)

lemma row_major_product:
  "row_major img = map prod.swap (List.product [0..<height img] [0..<width img])"
  by (simp add: row_major_def product_concat_map map_concat comp_def)

lemma distinct_row_major: "distinct (row_major img)"
  unfolding row_major_product
  by (simp add: distinct_map distinct_product)

lemma finite_pixels: "finite (pixels img)"
  by (simp add: pixels_def)

lemma length_filter_row_major:
  "length (filter P (row_major img)) = card {p \<in> pixels img. P p}"
proof -
  have "card {p \<in> pixels img. P p} = card (set (filter P (row_major img)))"
    by (simp add: set_row_major)
  also have "\<dots> = length (filter P (row_major img))"
    by (intro distinct_card distinct_filter distinct_row_major)
  finally show ?thesis by simp
qed

lemma filter_member:
  assumes "S = {p \<in> pixels img. P p}"
  shows "filter (\<lambda>p. p \<in> S) (row_major img) = filter P (row_major img)"
  by (rule filter_cong) (auto simp: assms set_row_major)

lemma pass1_body_fgCount:
  assumes "well_formed img" "x < width img" "y < height img"
  shows "fgCount (pass1_body img opts y x s) =
         fgCount s + (if is_foreground img opts x y then 1 else 0)"
  using data_at_channel[OF assms, of 0] data_at_channel[OF assms, of 1]
    data_at_channel[OF assms, of 2] data_at_channel[OF assms, of 3]
  by (simp add: pass1_body_def is_foreground_def Let_def not_less)

lemma pass1_body_accum:
  assumes "well_formed img" "x < width img" "y < height img" "accumLightness s = Num a"
  shows "accumLightness (pass1_body img opts y x s) =
         Num (if is_foreground img opts x y then rnd (a + lightness img x y) else a)"
  using data_at_channel[OF assms(1-3), of 0] data_at_channel[OF assms(1-3), of 1]
    data_at_channel[OF assms(1-3), of 2] data_at_channel[OF assms(1-3), of 3] assms(4)
  by (simp add: pass1_body_def is_foreground_def Let_def not_less perceivedLightness_Num
      lightness_def)

lemma pass1_row_fgCount:
  assumes "well_formed img" "y < height img"
  shows "fgCount (pass1_row img opts y s) =
         fgCount s + length (filter (\<lambda>p. is_foreground img opts (fst p) (snd p))
                                    (map (\<lambda>x. (x, y)) [0..<width img]))"
proof -
  have "fgCount (pass1_row img opts y s) =
        fgCount s + length (filter (\<lambda>x. is_foreground img opts x y) [0..<width img])"
    unfolding pass1_row_def
    by (rule fold_filter_count) (simp add: pass1_body_fgCount assms)
  then show ?thesis by (simp add: filter_map comp_def)
qed

lemma pass1_row_accum:
  assumes "well_formed img" "y < height img" "accumLightness s = Num a"
  shows "accumLightness (pass1_row img opts y s) =
         Num (foldl (\<lambda>s p. rnd (s + lightness img (fst p) (snd p))) a
                (filter (\<lambda>p. is_foreground img opts (fst p) (snd p))
                        (map (\<lambda>x. (x, y)) [0..<width img])))"
proof -
  have "accumLightness (pass1_row img opts y s) =
        Num (foldl (\<lambda>s x. rnd (s + lightness img x y)) a
               (filter (\<lambda>x. is_foreground img opts x y) [0..<width img]))"
    unfolding pass1_row_def
    by (rule fold_filter_accum[where acc = accumLightness])
       (simp_all add: pass1_body_accum assms)
  then show ?thesis by (simp add: filter_map comp_def foldl_map)
qed

lemma foreground_filter:
  "filter (\<lambda>p. p \<in> foreground img opts) (row_major img) =
   filter (\<lambda>p. is_foreground img opts (fst p) (snd p)) (row_major img)"
  by (rule filter_member) (simp add: foreground_def)

lemma pass1_scan_fgCount:
  assumes "well_formed img"
  shows "fgCount (pass1_scan img opts) = card (foreground img opts)"
proof -
  have "fgCount (pass1_scan img opts) = fgCount pass1_init +
        length (filter (\<lambda>p. is_foreground img opts (fst p) (snd p)) (row_major img))"
    unfolding pass1_scan_def row_major_def
    by (rule fold_rows_count) (simp add: pass1_row_fgCount assms)
  then show ?thesis
    by (simp add: length_filter_row_major foreground_def pass1_init_def)
qed

lemma pass1_scan_accum:
  assumes "well_formed img"
  shows "accumLightness (pass1_scan img opts) =
         Num (running_sum img (filter (\<lambda>p. p \<in> foreground img opts) (row_major img)))"
proof -
  have "accumLightness (pass1_scan img opts) =
        Num (foldl (\<lambda>s p. rnd (s + lightness img (fst p) (snd p))) 0
               (filter (\<lambda>p. is_foreground img opts (fst p) (snd p)) (row_major img)))"
    unfolding pass1_scan_def row_major_def
    by (rule fold_rows_accum[where acc = accumLightness])
       (simp_all add: pass1_row_accum assms pass1_init_def)
  then show ?thesis
    by (simp add: running_sum_def foreground_filter)
qed

lemma in_edge_band_iff:
  "in_edge_band img opts x y \<longleftrightarrow> inYBand img opts y \<or> inXBand img opts x"
  by (simp add: in_edge_band_def inYBand_def inXBand_def edgeBandX_def edgeBandY_def Let_def)

lemma pass2_body_edgeOpaque:
  assumes "well_formed img" "x < width img" "y < height img"
  shows "edgeOpaque (pass2_body img opts y x s) =
         edgeOpaque s + (if is_edge_sample img opts x y then 1 else 0)"
  using data_at_channel[OF assms, of 3]
  by (simp add: pass2_body_def is_edge_sample_def in_edge_band_iff Let_def not_less)

lemma pass2_body_accum:
  assumes "well_formed img" "x < width img" "y < height img" "edgeLightAccum s = Num a"
  shows "edgeLightAccum (pass2_body img opts y x s) =
         Num (if is_edge_sample img opts x y then rnd (a + lightness img x y) else a)"
  using data_at_channel[OF assms(1-3), of 0] data_at_channel[OF assms(1-3), of 1]
    data_at_channel[OF assms(1-3), of 2] data_at_channel[OF assms(1-3), of 3] assms(4)
  by (simp add: pass2_body_def is_edge_sample_def in_edge_band_iff Let_def not_less
      perceivedLightness_Num lightness_def)

lemma pass2_row_edgeOpaque:
  assumes "well_formed img" "y < height img"
  shows "edgeOpaque (pass2_row img opts y s) =
         edgeOpaque s + length (filter (\<lambda>p. is_edge_sample img opts (fst p) (snd p))
                                       (map (\<lambda>x. (x, y)) [0..<width img]))"
proof -
  have "edgeOpaque (pass2_row img opts y s) =
        edgeOpaque s + length (filter (\<lambda>x. is_edge_sample img opts x y) [0..<width img])"
    unfolding pass2_row_def
    by (rule fold_filter_count) (simp add: pass2_body_edgeOpaque assms)
  then show ?thesis by (simp add: filter_map comp_def)
qed

lemma pass2_row_accum:
  assumes "well_formed img" "y < height img" "edgeLightAccum s = Num a"
  shows "edgeLightAccum (pass2_row img opts y s) =
         Num (foldl (\<lambda>s p. rnd (s + lightness img (fst p) (snd p))) a
                (filter (\<lambda>p. is_edge_sample img opts (fst p) (snd p))
                        (map (\<lambda>x. (x, y)) [0..<width img])))"
proof -
  have "edgeLightAccum (pass2_row img opts y s) =
        Num (foldl (\<lambda>s x. rnd (s + lightness img x y)) a
               (filter (\<lambda>x. is_edge_sample img opts x y) [0..<width img]))"
    unfolding pass2_row_def
    by (rule fold_filter_accum[where acc = edgeLightAccum])
       (simp_all add: pass2_body_accum assms)
  then show ?thesis by (simp add: filter_map comp_def foldl_map)
qed

lemma edge_sample_filter:
  "filter (\<lambda>p. p \<in> edge_sample img opts) (row_major img) =
   filter (\<lambda>p. is_edge_sample img opts (fst p) (snd p)) (row_major img)"
  by (rule filter_member) (simp add: edge_sample_def)

lemma pass2_scan_edgeOpaque:
  assumes "well_formed img"
  shows "edgeOpaque (pass2_scan img opts) = card (edge_sample img opts)"
proof -
  have "edgeOpaque (pass2_scan img opts) = edgeOpaque pass2_init +
        length (filter (\<lambda>p. is_edge_sample img opts (fst p) (snd p)) (row_major img))"
    unfolding pass2_scan_def row_major_def
    by (rule fold_rows_count) (simp add: pass2_row_edgeOpaque assms)
  then show ?thesis
    by (simp add: length_filter_row_major edge_sample_def pass2_init_def)
qed

lemma pass2_scan_accum:
  assumes "well_formed img"
  shows "edgeLightAccum (pass2_scan img opts) =
         Num (running_sum img (filter (\<lambda>p. p \<in> edge_sample img opts) (row_major img)))"
proof -
  have "edgeLightAccum (pass2_scan img opts) =
        Num (foldl (\<lambda>s p. rnd (s + lightness img (fst p) (snd p))) 0
               (filter (\<lambda>p. is_edge_sample img opts (fst p) (snd p)) (row_major img)))"
    unfolding pass2_scan_def row_major_def
    by (rule fold_rows_accum[where acc = edgeLightAccum])
       (simp_all add: pass2_row_accum assms pass2_init_def)
  then show ?thesis
    by (simp add: running_sum_def edge_sample_filter)
qed

lemma finite_foreground: "finite (foreground img opts)"
  by (simp add: foreground_def finite_pixels)

lemma finite_edge_sample: "finite (edge_sample img opts)"
  by (simp add: edge_sample_def finite_pixels)

section \<open>Bounds on the mean lightness\<close>

lemmas rnd_consts = rnd_c299_n rnd_c587_n rnd_c114_n rnd_c58_n rnd_c42_n rnd_c3_n rnd_c1_n rnd_c4_n

lemma running_sum_snoc:
  "running_sum img (ps @ [p]) = rnd (running_sum img ps + lightness img (fst p) (snd p))"
  by (simp add: running_sum_def)

lemma running_sum_bounds:
  assumes "length ps \<le> 2 ^ 53"
  shows "0 \<le> running_sum img ps \<and> running_sum img ps \<le> real (length ps)"
  using assms
proof (induction ps rule: rev_induct)
  case Nil
  then show ?case by (simp add: running_sum_def)
next
  case (snoc p ps)
  then have IH: "0 \<le> running_sum img ps" "running_sum img ps \<le> real (length ps)" by simp_all
  have L: "0 \<le> lightness img (fst p) (snd p)" "lightness img (fst p) (snd p) \<le> 1"
    using lightness_bounds by simp_all
  have nn: "0 \<le> running_sum img ps + lightness img (fst p) (snd p)" using IH L by simp
  have "running_sum img ps + lightness img (fst p) (snd p) \<le> real (Suc (length ps))"
    using IH L by simp
  then have "rnd (running_sum img ps + lightness img (fst p) (snd p)) \<le> rnd (real (Suc (length ps)))"
    using nn by (intro rnd_mono)
  also have "\<dots> = real (Suc (length ps))"
    using snoc.prems by (intro rnd_of_nat) simp
  finally show ?case
    using rnd_nonneg[OF nn] by (simp add: running_sum_snoc)
qed

lemma pixel_count_bound:
  assumes "well_formed img"
  shows "length (row_major img) \<le> 2 ^ 53"
proof -
  have "length (row_major img) = card (pixels img)"
    using length_filter_row_major[of "\<lambda>_. True" img] by simp
  also have "\<dots> = width img * height img" by (simp add: pixels_def)
  also have "\<dots> \<le> array_length (data img)" using assms by (simp add: well_formed_def)
  also have "\<dots> \<le> 2 ^ 53" using array_length_bound[of "data img"] by simp
  finally show ?thesis .
qed

lemma length_sequence:
  assumes "S \<subseteq> pixels img"
  shows "length (filter (\<lambda>p. p \<in> S) (row_major img)) = card S"
proof -
  have "{p \<in> pixels img. p \<in> S} = S" using assms by auto
  then show ?thesis by (simp add: length_filter_row_major)
qed

lemma mean_lightness_bounds:
  assumes "well_formed img" "S \<subseteq> pixels img" "S \<noteq> {}"
  shows "0 \<le> mean_lightness img S \<and> mean_lightness img S \<le> 1"
proof -
  let ?ps = "filter (\<lambda>p. p \<in> S) (row_major img)"
  have fin: "finite S" using assms(2) finite_pixels by (rule finite_subset)
  then have c: "0 < card S" using assms(3) by (simp add: card_gt_0_iff)
  have len: "length ?ps = card S" by (rule length_sequence[OF assms(2)])
  have "length ?ps \<le> length (row_major img)" by (rule length_filter_le)
  then have "length ?ps \<le> 2 ^ 53" using pixel_count_bound[OF assms(1)] by linarith
  then have b: "0 \<le> running_sum img ?ps" "running_sum img ?ps \<le> real (card S)"
    using running_sum_bounds[of ?ps img] len by simp_all
  have q0: "0 \<le> running_sum img ?ps / real (card S)" using b(1) by simp
  have q1: "running_sum img ?ps / real (card S) \<le> 1" using b(2) c by simp
  have "rnd (running_sum img ?ps / real (card S)) \<le> rnd 1" using q0 q1 by (rule rnd_mono)
  then show ?thesis using rnd_nonneg[OF q0] by (simp add: mean_lightness_def)
qed

lemma foreground_subset: "foreground img opts \<subseteq> pixels img"
  by (auto simp: foreground_def)

lemma edge_sample_subset: "edge_sample img opts \<subseteq> pixels img"
  by (auto simp: edge_sample_def)

section \<open>The decision in terms of pixel sets\<close>

lemma edge_decision_sets:
  assumes "well_formed img"
  shows "edge_decision (pass2_scan img opts) (Num avg) =
         (if edge_sample img opts = {} then (dark, Num (rnd 0.1))
          else (if avg < mean_lightness img (edge_sample img opts) then light else dark,
                Num (rnd 0.3)))"
  using finite_edge_sample[of img opts]
  by (simp add: edge_decision_def pass2_scan_edgeOpaque[OF assms] pass2_scan_accum[OF assms]
      mean_lightness_def card_gt_0_iff Let_def lit_def)

lemma suggestBackground_sets:
  assumes "well_formed img"
  shows "suggestBackground img opts =
    (let F = foreground img opts; E = edge_sample img opts; avg = mean_lightness img F
     in if F = {} then
          \<lparr>tone = dark, confidence = Num 0, foregroundLightness = Num 0,
           foregroundSampled = 0, totalSampled = width img * height img\<rparr>
        else
          \<lparr>tone = (if rnd 0.58 < avg then dark else if avg < rnd 0.42 then light
                   else if E = {} then dark
                   else if avg < mean_lightness img E then light else dark),
           confidence = Num (max 0 (min 1
                  (if rnd 0.58 < avg then rnd (rnd (avg - rnd 0.58) / rnd 0.42)
                   else if avg < rnd 0.42 then rnd (rnd (rnd 0.42 - avg) / rnd 0.42)
                   else if E = {} then rnd 0.1 else rnd 0.3))),
           foregroundLightness = Num avg,
           foregroundSampled = card F, totalSampled = width img * height img\<rparr>)"
proof (cases "foreground img opts = {}")
  case True
  then show ?thesis
    by (simp add: suggestBackground_def pass1_scan_fgCount[OF assms] Let_def)
next
  case False
  then have c: "card (foreground img opts) \<noteq> 0"
    using finite_foreground[of img opts] by simp
  have avg: "accumLightness (pass1_scan img opts) / Num (real (card (foreground img opts)))
             = Num (mean_lightness img (foreground img opts))"
    by (simp add: pass1_scan_accum[OF assms] mean_lightness_def)
  show ?thesis
    using False c
    by (simp add: suggestBackground_def Let_def avg pass1_scan_fgCount[OF assms]
        edge_decision_sets[OF assms] lit_def)
qed

lemma suggestBackground_no_foreground:
  assumes "fgCount (pass1_scan img opts) = 0"
  shows "suggestBackground img opts =
         \<lparr>tone = dark, confidence = Num 0, foregroundLightness = Num 0,
          foregroundSampled = 0, totalSampled = width img * height img\<rparr>"
  using assms by (simp add: suggestBackground_def Let_def)

lemma rnd_quotient_pos:
  assumes "rnd x < rnd y" "0 < c" "c \<le> 1"
  shows "0 < rnd (rnd (rnd y - rnd x) / c)"
proof -
  obtain k l where "rnd x = of_int k * tiny" "rnd y = of_int l * tiny"
    using rnd_on_grid[of x] rnd_on_grid[of y] by blast
  then have "tiny \<le> rnd y - rnd x" using assms(1) by (rule grid_gap)
  then have d: "tiny \<le> rnd (rnd y - rnd x)" by (rule rnd_pos)
  then have "rnd (rnd y - rnd x) * c \<le> rnd (rnd y - rnd x) * 1"
    using assms(3) tiny_pos by (intro mult_left_mono) linarith+
  then have "rnd (rnd y - rnd x) \<le> rnd (rnd y - rnd x) / c"
    using assms(2) by (simp add: pos_le_divide_eq)
  then have "tiny \<le> rnd (rnd y - rnd x) / c" using d by linarith
  then have "tiny \<le> rnd (rnd (rnd y - rnd x) / c)" by (rule rnd_pos)
  then show ?thesis using tiny_pos by linarith
qed

lemma suggestBackground_some_foreground:
  assumes "fgCount (pass1_scan img opts) \<noteq> 0"
  shows "case confidence (suggestBackground img opts) of
           NaN \<Rightarrow> False | Num c \<Rightarrow> 0 < c \<and> c \<le> 1"
proof (cases "accumLightness (pass1_scan img opts)")
  case NaN
  with assms show ?thesis
    by (simp add: suggestBackground_def Let_def edge_decision_def lit_def rnd_consts)
next
  case (Num S)
  define a where "a = rnd (S / real (fgCount (pass1_scan img opts)))"
  have avg: "accumLightness (pass1_scan img opts) / Num (real (fgCount (pass1_scan img opts)))
        = Num a"
    by (simp add: Num a_def)
  have c42: "0 < rnd 0.42" "rnd 0.42 \<le> 1" by (simp_all add: rnd_consts)
  have hi: "0 < rnd (rnd (a - rnd 0.58) / rnd 0.42)" if "rnd 0.58 < a"
    using rnd_quotient_pos[of "0.58" "S / real (fgCount (pass1_scan img opts))" "rnd 0.42"]
      that c42 by (simp add: a_def)
  have lo: "0 < rnd (rnd (rnd 0.42 - a) / rnd 0.42)" if "a < rnd 0.42"
    using rnd_quotient_pos[of "S / real (fgCount (pass1_scan img opts))" "0.42" "rnd 0.42"]
      that c42 by (simp add: a_def)
  show ?thesis
  proof (cases "rnd 0.58 < a")
    case True
    with hi assms show ?thesis
      by (simp add: suggestBackground_def Let_def avg lit_def)
  next
    case False
    note nothi = this
    show ?thesis
    proof (cases "a < rnd 0.42")
      case True
      with lo nothi assms show ?thesis
        by (simp add: suggestBackground_def Let_def avg lit_def)
    next
      case False
      with nothi assms show ?thesis
        by (simp add: suggestBackground_def Let_def avg lit_def edge_decision_def rnd_consts)
    qed
  qed
qed

lemma suggestBackground_counts:
  "foregroundSampled (suggestBackground img opts) = fgCount (pass1_scan img opts)"
  "totalSampled (suggestBackground img opts) = width img * height img"
  by (simp_all add: suggestBackground_def Let_def case_prod_unfold)

section \<open>Evaluating the analyser on a concrete bitmap\<close>

lemma upt_small:
  "[0..<1] = [0]" "[0..<2] = [0, 1]" "[0..<3] = [0, 1, 2]"
  by (simp_all add: upt_rec)

lemmas scan_eval = pass1_scan_def pass1_row_def pass1_body_def pass1_init_def
  pass2_scan_def pass2_row_def pass2_body_def pass2_init_def data_at_def
  array_length_from array_get_from
  opt_alphaThreshold_def opt_ignorePureWhite_def opt_ignorePureBlack_def opt_edgeSampleRatio_def
  inYBand_def inXBand_def edgeBandX_def edgeBandY_def
  perceivedLightness_Num upt_small Let_def rnd_values

lemma foreground_by_scan:
  assumes "well_formed img" "accumLightness (pass1_scan img opts) = Num a"
  shows "card (foreground img opts) = fgCount (pass1_scan img opts)"
    and "mean_lightness img (foreground img opts) = rnd (a / real (fgCount (pass1_scan img opts)))"
    and "foreground img opts = {} \<longleftrightarrow> fgCount (pass1_scan img opts) = 0"
  using assms pass1_scan_accum[OF assms(1), of opts] finite_foreground[of img opts]
  by (simp_all add: pass1_scan_fgCount mean_lightness_def)

lemma edge_sample_by_scan:
  assumes "well_formed img" "edgeLightAccum (pass2_scan img opts) = Num a"
  shows "card (edge_sample img opts) = edgeOpaque (pass2_scan img opts)"
    and "mean_lightness img (edge_sample img opts) = rnd (a / real (edgeOpaque (pass2_scan img opts)))"
    and "edge_sample img opts = {} \<longleftrightarrow> edgeOpaque (pass2_scan img opts) = 0"
  using assms pass2_scan_accum[OF assms(1), of opts] finite_edge_sample[of img opts]
  by (simp_all add: pass2_scan_edgeOpaque mean_lightness_def)

lemma running_sum_ones:
  assumes "\<And>p. p \<in> set ps \<Longrightarrow> lightness img (fst p) (snd p) = 1" "length ps \<le> 2 ^ 53"
  shows "running_sum img ps = real (length ps)"
  using assms
proof (induction ps rule: rev_induct)
  case Nil
  then show ?case by (simp add: running_sum_def)
next
  case (snoc p ps)
  then have "running_sum img ps = real (length ps)" by simp
  moreover have "lightness img (fst p) (snd p) = 1" using snoc.prems(1) by simp
  moreover have "rnd (real (Suc (length ps))) = real (Suc (length ps))"
    using snoc.prems(2) by (intro rnd_of_nat) simp
  ultimately show ?case by (simp add: running_sum_snoc add.commute)
qed

lemma running_sum_zeros:
  assumes "\<And>p. p \<in> set ps \<Longrightarrow> lightness img (fst p) (snd p) = 0"
  shows "running_sum img ps = 0"
  using assms by (induction ps rule: rev_induct) (simp_all add: running_sum_def)

lemma pixels_nonempty: "0 < width img \<Longrightarrow> 0 < height img \<Longrightarrow> pixels img \<noteq> {}"
  by (auto simp: pixels_def)

lemma mean_lightness_white:
  assumes "well_formed img" "pixels img \<noteq> {}"
    "\<And>p. p \<in> pixels img \<Longrightarrow> lightness img (fst p) (snd p) = 1"
  shows "mean_lightness img (pixels img) = 1"
proof -
  have "filter (\<lambda>p. p \<in> pixels img) (row_major img) = row_major img"
    by (simp add: set_row_major[symmetric])
  moreover have "running_sum img (row_major img) = real (length (row_major img))"
    using assms(3) pixel_count_bound[OF assms(1)]
    by (intro running_sum_ones) (simp_all add: set_row_major)
  moreover have "length (row_major img) = card (pixels img)"
    using length_sequence[of "pixels img" img] calculation(1) by simp
  moreover have "card (pixels img) \<noteq> 0" using assms(2) finite_pixels by simp
  ultimately show ?thesis by (simp add: mean_lightness_def)
qed

lemma mean_lightness_black:
  assumes "\<And>p. p \<in> pixels img \<Longrightarrow> lightness img (fst p) (snd p) = 0"
  shows "mean_lightness img (pixels img) = 0"
proof -
  have "running_sum img (filter (\<lambda>p. p \<in> pixels img) (row_major img)) = 0"
    using assms by (intro running_sum_zeros) (simp add: set_row_major)
  then show ?thesis by (simp add: mean_lightness_def)
qed

lemma solid_white_tone:
  assumes "well_formed img" "solid img 255 255 255 255" "0 < width img" "0 < height img"
    "opt_alphaThreshold opts \<le> 255"
  shows "tone (suggestBackground img opts) = dark"
proof (cases "opt_ignorePureWhite opts")
  case True
  with assms(2) have "foreground img opts = {}"
    by (auto simp: foreground_def is_foreground_def solid_def)
  then show ?thesis by (simp add: suggestBackground_sets[OF assms(1)])
next
  case False
  with assms(2,5) have F: "foreground img opts = pixels img"
    by (auto simp: foreground_def is_foreground_def solid_def)
  have "mean_lightness img (pixels img) = 1"
  proof (rule mean_lightness_white[OF assms(1) pixels_nonempty[OF assms(3,4)]])
    fix p assume "p \<in> pixels img"
    with assms(2) show "lightness img (fst p) (snd p) = 1"
      by (simp add: solid_def lightness_def lightness64_c255_255_255)
  qed
  with F pixels_nonempty[OF assms(3,4)] show ?thesis
    by (simp add: suggestBackground_sets[OF assms(1)] Let_def rnd_consts)
qed

lemma solid_black_tone:
  assumes "well_formed img" "solid img 0 0 0 255" "0 < width img" "0 < height img"
    "opt_alphaThreshold opts \<le> 255"
  shows "tone (suggestBackground img opts) = (if opt_ignorePureBlack opts then dark else light)"
proof (cases "opt_ignorePureBlack opts")
  case True
  with assms(2) have "foreground img opts = {}"
    by (auto simp: foreground_def is_foreground_def solid_def)
  with True show ?thesis by (simp add: suggestBackground_sets[OF assms(1)])
next
  case False
  with assms(2,5) have F: "foreground img opts = pixels img"
    by (auto simp: foreground_def is_foreground_def solid_def)
  have "mean_lightness img (pixels img) = 0"
  proof (rule mean_lightness_black)
    fix p assume "p \<in> pixels img"
    with assms(2) show "lightness img (fst p) (snd p) = 0"
      by (simp add: solid_def lightness_def lightness64_0)
  qed
  with F False pixels_nonempty[OF assms(3,4)] show ?thesis
    by (simp add: suggestBackground_sets[OF assms(1)] Let_def rnd_consts)
qed

lemma covering_band:
  assumes "int (width img) \<le> 2 * edgeBandX img opts \<or> int (height img) \<le> 2 * edgeBandY img opts"
  shows "in_edge_band img opts x y"
  using assms by (auto simp: in_edge_band_iff inYBand_def inXBand_def)

section \<open>Properties of the analyser\<close>

text \<open>
  C1 (as amended). On a well-formed bitmap with at least one foreground pixel, the
  lightness of each foreground pixel is \<open>sqrt (0.299 R\<^sup>2 + 0.587 G\<^sup>2 + 0.114 B\<^sup>2) / 255\<close> as
  binary64 evaluates it, a value between 0 and 1; \<^verbatim>\<open>foregroundLightness\<close> is the mean
  \<open>avg\<close> of these values. Above 0.58 the tone is dark with confidence
  \<open>min 1 ((avg - 0.58) / 0.42)\<close>; below 0.42 it is light with confidence
  \<open>(0.42 - avg) / 0.42\<close>. The minimum is needed: for an all-white foreground \<open>avg\<close> is 1,
  the binary64 quotient \<open>(1 - 0.58) / 0.42\<close> is \<open>1 + 2\<^sup>-\<^sup>5\<^sup>2\<close>, and the clamp returns 1.
\<close>

theorem primary_decision:
  assumes "well_formed img" and "foreground img opts \<noteq> {}"
  shows "(\<forall>p\<in>foreground img opts.
            perceivedLightness (data_at (data img) ((snd p * width img + fst p) * 4))
              (data_at (data img) ((snd p * width img + fst p) * 4 + 1))
              (data_at (data img) ((snd p * width img + fst p) * 4 + 2))
              = Num (lightness img (fst p) (snd p))
            \<and> 0 \<le> lightness img (fst p) (snd p) \<and> lightness img (fst p) (snd p) \<le> 1)
       \<and> foregroundLightness (suggestBackground img opts)
            = Num (mean_lightness img (foreground img opts))
       \<and> (rnd 0.58 < mean_lightness img (foreground img opts) \<longrightarrow>
            tone (suggestBackground img opts) = dark
            \<and> confidence (suggestBackground img opts)
                = Num (min 1 (rnd (rnd (mean_lightness img (foreground img opts) - rnd 0.58)
                                   / rnd 0.42))))
       \<and> (mean_lightness img (foreground img opts) < rnd 0.42 \<longrightarrow>
            tone (suggestBackground img opts) = light
            \<and> confidence (suggestBackground img opts)
                = Num (rnd (rnd (rnd 0.42 - mean_lightness img (foreground img opts))
                            / rnd 0.42)))"
proof -
  define avg where "avg = mean_lightness img (foreground img opts)"
  have b: "0 \<le> avg" "avg \<le> 1"
    using mean_lightness_bounds[OF assms(1) foreground_subset assms(2)] by (simp_all add: avg_def)
  have c42: "0 < rnd 0.42" "rnd 0.42 \<le> 1" by (simp_all add: rnd_consts)
  have c4258: "rnd 0.42 < rnd 0.58" by (simp add: rnd_consts)
  have px: "\<forall>p\<in>foreground img opts.
            perceivedLightness (data_at (data img) ((snd p * width img + fst p) * 4))
              (data_at (data img) ((snd p * width img + fst p) * 4 + 1))
              (data_at (data img) ((snd p * width img + fst p) * 4 + 2))
              = Num (lightness img (fst p) (snd p))
            \<and> 0 \<le> lightness img (fst p) (snd p) \<and> lightness img (fst p) (snd p) \<le> 1"
    using pixel_lightness[OF assms(1)] lightness_bounds
    by (auto simp: foreground_def pixels_def)
  have hi: "0 \<le> rnd (rnd (avg - rnd 0.58) / rnd 0.42)" if "rnd 0.58 < avg"
  proof -
    have "0 \<le> rnd (avg - rnd 0.58)" using that by (intro rnd_nonneg) simp
    then have "0 \<le> rnd (avg - rnd 0.58) / rnd 0.42" using c42(1) by simp
    then show ?thesis by (rule rnd_nonneg)
  qed
  have lo: "0 \<le> rnd (rnd (rnd 0.42 - avg) / rnd 0.42)
          \<and> rnd (rnd (rnd 0.42 - avg) / rnd 0.42) \<le> 1" if "avg < rnd 0.42"
  proof -
    have d0: "0 \<le> rnd 0.42 - avg" using that by simp
    have "rnd (rnd 0.42 - avg) \<le> rnd (rnd 0.42)"
      using d0 b(1) by (intro rnd_mono) simp_all
    also have "\<dots> = rnd 0.42" by (simp add: rnd_consts rnd_c42_idem)
    finally have d1: "rnd (rnd 0.42 - avg) \<le> rnd 0.42" .
    have q0: "0 \<le> rnd (rnd 0.42 - avg) / rnd 0.42"
      using rnd_nonneg[OF d0] c42(1) by simp
    have q1: "rnd (rnd 0.42 - avg) / rnd 0.42 \<le> 1" using d1 c42(1) by simp
    have "rnd (rnd (rnd 0.42 - avg) / rnd 0.42) \<le> rnd 1" using q0 q1 by (rule rnd_mono)
    then show ?thesis using rnd_nonneg[OF q0] by simp
  qed
  have rest: "foregroundLightness (suggestBackground img opts) = Num avg
       \<and> (rnd 0.58 < avg \<longrightarrow>
            tone (suggestBackground img opts) = dark
            \<and> confidence (suggestBackground img opts)
                = Num (min 1 (rnd (rnd (avg - rnd 0.58) / rnd 0.42))))
       \<and> (avg < rnd 0.42 \<longrightarrow>
            tone (suggestBackground img opts) = light
            \<and> confidence (suggestBackground img opts)
                = Num (rnd (rnd (rnd 0.42 - avg) / rnd 0.42)))"
    using assms(2) hi lo c4258
    by (auto simp: suggestBackground_sets[OF assms(1)] Let_def avg_def[symmetric] min_def max_def)
  from px rest show ?thesis unfolding avg_def by blast
qed

theorem primary_decision_witness:
  "well_formed light_logo \<and> foreground light_logo opaque_logo_options \<noteq> {}
   \<and> mean_lightness light_logo (foreground light_logo opaque_logo_options)
       = 8477364004462109 / 9007199254740992
   \<and> tone (suggestBackground light_logo opaque_logo_options) = dark
   \<and> confidence (suggestBackground light_logo opaque_logo_options)
       = Num (3872843377038493 / 4503599627370496)
   \<and> well_formed dark_logo \<and> foreground dark_logo default_options \<noteq> {}
   \<and> mean_lightness dark_logo (foreground dark_logo default_options)
       = 1412894000743685 / 36028797018963968
   \<and> tone (suggestBackground dark_logo default_options) = light
   \<and> confidence (suggestBackground dark_logo default_options)
       = Num (2041547730241247 / 2251799813685248)"
proof -
  have wf: "well_formed light_logo" and wf': "well_formed dark_logo"
    by (simp_all add: well_formed_def light_logo_def dark_logo_def array_length_from)
  have scan: "pass1_scan light_logo opaque_logo_options =
      \<lparr>fgCount = 4, accumLightness = Num (8477364004462109 / 2251799813685248),
       pureWhiteIgnored = 0, pureBlackIgnored = 0\<rparr>"
    by (simp add: scan_eval light_logo_def opaque_logo_options_def default_options_def)
  have ne: "foreground light_logo opaque_logo_options \<noteq> {}"
    and m: "mean_lightness light_logo (foreground light_logo opaque_logo_options)
       = 8477364004462109 / 9007199254740992"
    using foreground_by_scan[OF wf, of opaque_logo_options "8477364004462109 / 2251799813685248"]
      scan by (simp_all add: rnd_values)
  have scan': "pass1_scan dark_logo default_options =
      \<lparr>fgCount = 4, accumLightness = Num (1412894000743685 / 9007199254740992),
       pureWhiteIgnored = 0, pureBlackIgnored = 0\<rparr>"
    by (simp add: scan_eval dark_logo_def default_options_def)
  have ne': "foreground dark_logo default_options \<noteq> {}"
    and m': "mean_lightness dark_logo (foreground dark_logo default_options)
       = 1412894000743685 / 36028797018963968"
    using foreground_by_scan[OF wf', of default_options "1412894000743685 / 9007199254740992"]
      scan' by (simp_all add: rnd_values)
  show ?thesis
    using primary_decision[OF wf ne] primary_decision[OF wf' ne'] wf ne m wf' ne' m'
    by (simp add: rnd_values)
qed

theorem primary_decision_counterexample:
  "well_formed white_pixel \<and> foreground white_pixel opaque_logo_options \<noteq> {}
   \<and> mean_lightness white_pixel (foreground white_pixel opaque_logo_options) = 1
   \<and> rnd 0.58 < 1
   \<and> rnd (rnd (1 - rnd 0.58) / rnd 0.42) = 4503599627370497 / 4503599627370496
   \<and> confidence (suggestBackground white_pixel opaque_logo_options) = Num 1
   \<and> confidence (suggestBackground white_pixel opaque_logo_options)
       \<noteq> Num (rnd (rnd (mean_lightness white_pixel (foreground white_pixel opaque_logo_options)
                          - rnd 0.58) / rnd 0.42))"
proof -
  have wf: "well_formed white_pixel"
    by (simp add: well_formed_def white_pixel_def array_length_from)
  have scan: "pass1_scan white_pixel opaque_logo_options =
      \<lparr>fgCount = 1, accumLightness = Num 1, pureWhiteIgnored = 0, pureBlackIgnored = 0\<rparr>"
    by (simp add: scan_eval white_pixel_def opaque_logo_options_def default_options_def)
  have ne: "foreground white_pixel opaque_logo_options \<noteq> {}"
    and m: "mean_lightness white_pixel (foreground white_pixel opaque_logo_options) = 1"
    using foreground_by_scan[OF wf, of opaque_logo_options 1] scan by simp_all
  have q: "rnd (rnd (1 - rnd 0.58) / rnd 0.42) = 4503599627370497 / 4503599627370496"
    by (simp add: rnd_values)
  have c: "confidence (suggestBackground white_pixel opaque_logo_options) = Num 1"
    by (simp add: suggestBackground_def lit_def scan rnd_values Let_def)
  show ?thesis
    using wf ne m q c by (simp add: rnd_values)
qed

text \<open>
  C2. When the mean foreground lightness lies in the band from 0.42 to 0.58 (the mean and
  the two bounds as binary64 has them), the decision comes from the edge samples: the
  pixels of the union of the outer \<open>\<lfloor>height * edgeSampleRatio\<rfloor>\<close> rows and the outer
  \<open>\<lfloor>width * edgeSampleRatio\<rfloor>\<close> columns whose alpha reaches the threshold, the exclusions
  of pure white and pure black not being applied. With no edge sample the tone is dark
  with confidence 0.1; otherwise the tone is light when the edge mean exceeds the
  foreground mean and dark when not, with confidence 0.3. In the witness, a column of
  three pixels of the same grey, the two running sums round differently and the edge
  mean exceeds the foreground mean by one unit in the last place.
\<close>

theorem edge_tiebreak:
  assumes "well_formed img" and "foreground img opts \<noteq> {}"
    and "rnd 0.42 \<le> mean_lightness img (foreground img opts)"
    and "mean_lightness img (foreground img opts) \<le> rnd 0.58"
  shows "tone (suggestBackground img opts) =
           (if edge_sample img opts = {} then dark
            else if mean_lightness img (edge_sample img opts)
                      > mean_lightness img (foreground img opts) then light
            else dark)
       \<and> confidence (suggestBackground img opts) =
           (if edge_sample img opts = {} then Num (rnd 0.1) else Num (rnd 0.3))"
  using assms(2-4)
  by (simp add: suggestBackground_sets[OF assms(1)] Let_def rnd_consts)

theorem edge_tiebreak_witness:
  "well_formed grey_column \<and> foreground grey_column default_options \<noteq> {}
   \<and> mean_lightness grey_column (foreground grey_column default_options)
       = 8548008704499293 / 18014398509481984
   \<and> edge_sample grey_column default_options \<noteq> {}
   \<and> mean_lightness grey_column (edge_sample grey_column default_options)
       = 8548008704499294 / 18014398509481984
   \<and> tone (suggestBackground grey_column default_options) = light
   \<and> confidence (suggestBackground grey_column default_options) = Num (rnd 0.3)"
proof -
  have wf: "well_formed grey_column"
    by (simp add: well_formed_def grey_column_def array_length_from)
  have scan1: "pass1_scan grey_column default_options =
      \<lparr>fgCount = 3, accumLightness = Num (3205503264187235 / 2251799813685248),
       pureWhiteIgnored = 0, pureBlackIgnored = 0\<rparr>"
    by (simp add: scan_eval grey_column_def default_options_def)
  have scan2: "pass2_scan grey_column default_options =
      \<lparr>edgeOpaque = 2, edgeLightAccum = Num (4274004352249647 / 4503599627370496)\<rparr>"
    by (simp add: scan_eval grey_column_def default_options_def)
  have ne: "foreground grey_column default_options \<noteq> {}"
    and m: "mean_lightness grey_column (foreground grey_column default_options)
       = 8548008704499293 / 18014398509481984"
    using foreground_by_scan[OF wf, of default_options "3205503264187235 / 2251799813685248"]
      scan1 by (simp_all add: rnd_values)
  have ne2: "edge_sample grey_column default_options \<noteq> {}"
    and m2: "mean_lightness grey_column (edge_sample grey_column default_options)
       = 8548008704499294 / 18014398509481984"
    using edge_sample_by_scan[OF wf, of default_options "4274004352249647 / 4503599627370496"]
      scan2 by (simp_all add: rnd_values)
  have lo: "rnd 0.42 \<le> mean_lightness grey_column (foreground grey_column default_options)"
    and hi: "mean_lightness grey_column (foreground grey_column default_options) \<le> rnd 0.58"
    by (simp_all add: m rnd_consts)
  show ?thesis
    using edge_tiebreak[OF wf ne lo hi] wf ne ne2 m m2 by simp
qed

text \<open>
  C3. When no pixel counts as foreground, the result is exactly the fallback record:
  tone dark, confidence 0, foreground lightness 0, no foreground sample, and every pixel
  of the bitmap counted in \<^verbatim>\<open>totalSampled\<close>.
\<close>

theorem empty_foreground_fallback:
  assumes "well_formed img" and "foreground img opts = {}"
  shows "suggestBackground img opts =
         \<lparr>tone = dark, confidence = Num 0, foregroundLightness = Num 0,
          foregroundSampled = 0, totalSampled = width img * height img\<rparr>"
  using assms(2) by (simp add: suggestBackground_sets[OF assms(1)])

theorem empty_foreground_fallback_witness:
  "well_formed white_pixel \<and> foreground white_pixel default_options = {}
   \<and> suggestBackground white_pixel default_options =
         \<lparr>tone = dark, confidence = Num 0, foregroundLightness = Num 0,
          foregroundSampled = 0, totalSampled = 1\<rparr>"
proof -
  have wf: "well_formed white_pixel"
    by (simp add: well_formed_def white_pixel_def array_length_from)
  have scan: "pass1_scan white_pixel default_options =
      \<lparr>fgCount = 0, accumLightness = Num 0, pureWhiteIgnored = 1, pureBlackIgnored = 0\<rparr>"
    by (simp add: scan_eval white_pixel_def default_options_def)
  have e: "foreground white_pixel default_options = {}"
    using foreground_by_scan(3)[OF wf, of default_options 0] scan by simp
  show ?thesis
    using empty_foreground_fallback[OF wf e] wf e by (simp add: white_pixel_def)
qed

text \<open>
  C5. \<^verbatim>\<open>totalSampled\<close> is \<open>width * height\<close> whatever was filtered, and
  \<^verbatim>\<open>foregroundSampled\<close> is the number of pixels whose alpha reaches the threshold and
  that neither exact-match exclusion removes. The witness is the 2 by 2 bitmap of the
  repository's test, two transparent pixels and two opaque ones at (250, 250, 250).
\<close>

theorem sample_counts:
  assumes "well_formed img"
  shows "totalSampled (suggestBackground img opts) = width img * height img
       \<and> foregroundSampled (suggestBackground img opts) = card (foreground img opts)"
  by (simp add: suggestBackground_counts pass1_scan_fgCount[OF assms])

theorem sample_counts_witness:
  "well_formed half_transparent
   \<and> totalSampled (suggestBackground half_transparent default_options) = 4
   \<and> foregroundSampled (suggestBackground half_transparent default_options) = 2
   \<and> card (foreground half_transparent default_options) = 2"
proof -
  have wf: "well_formed half_transparent"
    by (simp add: well_formed_def half_transparent_def array_length_from)
  have "fgCount (pass1_scan half_transparent default_options) = 2"
    by (simp add: scan_eval half_transparent_def default_options_def)
  then have "foregroundSampled (suggestBackground half_transparent default_options) = 2"
    by (simp add: suggestBackground_counts)
  then show ?thesis
    using sample_counts[OF wf, of default_options] wf by (simp add: half_transparent_def)
qed

text \<open>
  C4. The analyser has no failing path: the source raises nowhere, so the model returns a
  record for every bitmap and every configuration. The confidence it returns is a number
  between 0 and 1 for any input whatever, and on a well-formed bitmap the foreground
  lightness is a number between 0 and 1 as well. The witness is the zero-size bitmap under
  an alpha threshold of 0.
\<close>

theorem confidence_in_unit_interval:
  "(\<exists>c. confidence (suggestBackground img opts) = Num c \<and> 0 \<le> c \<and> c \<le> 1)
   \<and> (well_formed img \<longrightarrow>
        (\<exists>l. foregroundLightness (suggestBackground img opts) = Num l \<and> 0 \<le> l \<and> l \<le> 1))"
proof -
  have "\<exists>c. confidence (suggestBackground img opts) = Num c \<and> 0 \<le> c \<and> c \<le> 1"
  proof (cases "fgCount (pass1_scan img opts) = 0")
    case True
    then show ?thesis by (simp add: suggestBackground_no_foreground)
  next
    case False
    from suggestBackground_some_foreground[OF this] show ?thesis
      by (cases "confidence (suggestBackground img opts)") auto
  qed
  moreover have "\<exists>l. foregroundLightness (suggestBackground img opts) = Num l \<and> 0 \<le> l \<and> l \<le> 1"
    if wf: "well_formed img"
  proof (cases "foreground img opts = {}")
    case True
    then show ?thesis by (simp add: suggestBackground_sets[OF wf])
  next
    case False
    with mean_lightness_bounds[OF wf foreground_subset False] show ?thesis
      by (simp add: suggestBackground_sets[OF wf] Let_def)
  qed
  ultimately show ?thesis by blast
qed

theorem confidence_in_unit_interval_witness:
  "well_formed empty_image
   \<and> confidence (suggestBackground empty_image zero_threshold_options) = Num 0
   \<and> foregroundLightness (suggestBackground empty_image zero_threshold_options) = Num 0"
proof -
  have wf: "well_formed empty_image"
    by (simp add: well_formed_def empty_image_def)
  have "suggestBackground empty_image zero_threshold_options =
      \<lparr>tone = dark, confidence = Num 0, foregroundLightness = Num 0,
       foregroundSampled = 0, totalSampled = 0\<rparr>"
    by (simp add: suggestBackground_def pass1_scan_def pass1_init_def empty_image_def)
  then show ?thesis
    using confidence_in_unit_interval[of empty_image zero_threshold_options] wf by simp
qed

text \<open>
  C6 (as amended). For an all-white and an all-black opaque bitmap of the same non-zero
  dimensions and an alpha threshold of at most 255, the call on the white bitmap with
  flags \<open>(b1, b2)\<close> returns dark, and the call on the black bitmap with the flags swapped
  returns light when \<open>b1\<close> is false and dark when \<open>b1\<close> is true. So the tones are mirrored
  exactly when \<open>b1\<close> is false; when \<open>b1\<close> is true both bitmaps have an empty foreground and
  both calls return the dark fallback, which is the counterexample to the claim as stated.
\<close>

theorem flag_swap_tones:
  assumes "well_formed white" "well_formed black"
    and "solid white 255 255 255 255" "solid black 0 0 0 255"
    and "width white = width black" "height white = height black"
    and "0 < width white" "0 < height white"
    and "opt_alphaThreshold (flag_options t q b1 b2) \<le> 255"
  shows "tone (suggestBackground white (flag_options t q b1 b2)) = dark
       \<and> tone (suggestBackground black (flag_options t q b2 b1)) = (if b1 then dark else light)"
proof -
  have t: "opt_alphaThreshold (flag_options t q b2 b1) \<le> 255"
    using assms(9) by (simp add: opt_alphaThreshold_def flag_options_def)
  have "opt_ignorePureBlack (flag_options t q b2 b1) = b1"
    by (simp add: opt_ignorePureBlack_def flag_options_def)
  then show ?thesis
    using solid_white_tone[OF assms(1,3,7,8,9)] solid_black_tone[OF assms(2,4) _ _ t] assms(5-8)
    by simp
qed

theorem flag_swap_tones_witness:
  "well_formed white_pixel \<and> well_formed black_pixel
   \<and> solid white_pixel 255 255 255 255 \<and> solid black_pixel 0 0 0 255
   \<and> tone (suggestBackground white_pixel (flag_options None None False True)) = dark
   \<and> tone (suggestBackground black_pixel (flag_options None None True False)) = light"
proof -
  have wf: "well_formed white_pixel" "well_formed black_pixel"
    by (simp_all add: well_formed_def white_pixel_def black_pixel_def array_length_from)
  have s: "solid white_pixel 255 255 255 255" "solid black_pixel 0 0 0 255"
    by (simp_all add: solid_def pixels_def channel_def white_pixel_def black_pixel_def
        array_get_from)
  have d: "width white_pixel = width black_pixel" "height white_pixel = height black_pixel"
    "0 < width white_pixel" "0 < height white_pixel"
    by (simp_all add: white_pixel_def black_pixel_def)
  have t: "opt_alphaThreshold (flag_options None None False True) \<le> 255"
    by (simp add: opt_alphaThreshold_def flag_options_def)
  show ?thesis
    using flag_swap_tones[OF wf s d t] wf s by simp
qed

theorem flag_swap_counterexample:
  "\<not> (tone (suggestBackground white_pixel (flag_options None None True False)) = light
       \<longleftrightarrow> tone (suggestBackground black_pixel (flag_options None None False True)) = dark)"
  by (simp add: suggestBackground_def scan_eval flag_options_def white_pixel_def black_pixel_def)

text \<open>
  C7 (as amended). The edge band holds every pixel when twice a band width reaches the
  side it is taken from, \<open>width \<le> 2 * \<lfloor>width * edgeSampleRatio\<rfloor>\<close> or
  \<open>height \<le> 2 * \<lfloor>height * edgeSampleRatio\<rfloor>\<close>. If moreover no pixel that passes the alpha
  threshold is removed by an exact-match exclusion, the edge pass counts the pixels the
  first pass counts, with the same accumulated lightness and the same mean. As stated
  the claim fails twice: on a 1 by 1 bitmap the band \<open>\<lfloor>1 * 0.5\<rfloor> = 0\<close> is empty, and a
  pure-white pixel ignored by the first pass is still counted by the edge pass.
\<close>

theorem edge_sample_is_foreground:
  assumes "well_formed img"
    and "int (width img) \<le> 2 * edgeBandX img opts \<or> int (height img) \<le> 2 * edgeBandY img opts"
    and "\<forall>p\<in>pixels img. opt_alphaThreshold opts \<le> real (channel img 3 (fst p) (snd p))
           \<longrightarrow> is_foreground img opts (fst p) (snd p)"
  shows "edge_sample img opts = foreground img opts
       \<and> edgeOpaque (pass2_scan img opts) = fgCount (pass1_scan img opts)
       \<and> edgeLightAccum (pass2_scan img opts) = accumLightness (pass1_scan img opts)
       \<and> mean_lightness img (edge_sample img opts) = mean_lightness img (foreground img opts)"
proof -
  have band: "in_edge_band img opts x y" for x y
    using assms(2) by (rule covering_band)
  have "edge_sample img opts = foreground img opts"
    using assms(3) by (auto simp: edge_sample_def foreground_def is_edge_sample_def band
        is_foreground_def)
  then show ?thesis
    by (simp add: pass2_scan_edgeOpaque[OF assms(1)] pass1_scan_fgCount[OF assms(1)]
        pass2_scan_accum[OF assms(1)] pass1_scan_accum[OF assms(1)])
qed

theorem edge_sample_is_foreground_witness:
  "well_formed wide_strip
   \<and> int (width wide_strip) \<le> 2 * edgeBandX wide_strip full_ratio_options
   \<and> edge_sample wide_strip full_ratio_options = foreground wide_strip full_ratio_options
   \<and> edgeOpaque (pass2_scan wide_strip full_ratio_options) = 3
   \<and> fgCount (pass1_scan wide_strip full_ratio_options) = 3"
proof -
  have wf: "well_formed wide_strip"
    by (simp add: well_formed_def wide_strip_def array_length_from)
  have bx: "edgeBandX wide_strip full_ratio_options = 3"
    by (simp add: edgeBandX_def opt_edgeSampleRatio_def wide_strip_def full_ratio_options_def
        rnd_values)
  then have cover: "int (width wide_strip) \<le> 2 * edgeBandX wide_strip full_ratio_options
      \<or> int (height wide_strip) \<le> 2 * edgeBandY wide_strip full_ratio_options"
    by (simp add: wide_strip_def)
  have ch: "channel wide_strip 0 x y = 128 \<and> channel wide_strip 1 x y = 128
        \<and> channel wide_strip 2 x y = 128" if "x < 3" "y < 1" for x y
  proof -
    from that have "x = 0 \<or> x = 1 \<or> x = 2" "y = 0" by auto
    then show ?thesis by (auto simp: channel_def wide_strip_def array_get_from)
  qed
  have keep: "\<forall>p\<in>pixels wide_strip.
      opt_alphaThreshold full_ratio_options \<le> real (channel wide_strip 3 (fst p) (snd p))
      \<longrightarrow> is_foreground wide_strip full_ratio_options (fst p) (snd p)"
    using ch by (auto simp: pixels_def is_foreground_def wide_strip_def)
  have "fgCount (pass1_scan wide_strip full_ratio_options) = 3"
    by (simp add: scan_eval wide_strip_def full_ratio_options_def default_options_def)
  then show ?thesis
    using edge_sample_is_foreground[OF wf cover keep] wf bx by (simp add: wide_strip_def)
qed

theorem edge_sample_is_foreground_counterexample:
  "1 / 2 \<le> opt_edgeSampleRatio half_ratio_options
   \<and> fgCount (pass1_scan grey_pixel half_ratio_options) = 1
   \<and> edgeOpaque (pass2_scan grey_pixel half_ratio_options) = 0
   \<and> edge_sample grey_pixel half_ratio_options \<noteq> foreground grey_pixel half_ratio_options
   \<and> fgCount (pass1_scan white_grey half_ratio_options) = 1
   \<and> edgeOpaque (pass2_scan white_grey half_ratio_options) = 2
   \<and> edge_sample white_grey half_ratio_options \<noteq> foreground white_grey half_ratio_options
   \<and> accumLightness (pass1_scan white_grey half_ratio_options)
        / Num (real (fgCount (pass1_scan white_grey half_ratio_options)))
       = Num (282578800148737 / 562949953421312)
   \<and> edgeLightAccum (pass2_scan white_grey half_ratio_options)
        / Num (real (edgeOpaque (pass2_scan white_grey half_ratio_options)))
       = Num (845528753570049 / 1125899906842624)
   \<and> tone (suggestBackground white_grey half_ratio_options) = light"
proof -
  have wf: "well_formed grey_pixel" "well_formed white_grey"
    by (simp_all add: well_formed_def grey_pixel_def white_grey_def array_length_from)
  have a1: "pass1_scan grey_pixel half_ratio_options =
      \<lparr>fgCount = 1, accumLightness = Num (282578800148737 / 562949953421312),
       pureWhiteIgnored = 0, pureBlackIgnored = 0\<rparr>"
    by (simp add: scan_eval grey_pixel_def half_ratio_options_def default_options_def)
  have a2: "pass2_scan grey_pixel half_ratio_options = \<lparr>edgeOpaque = 0, edgeLightAccum = Num 0\<rparr>"
    by (simp add: scan_eval grey_pixel_def half_ratio_options_def default_options_def)
  have b1: "pass1_scan white_grey half_ratio_options =
      \<lparr>fgCount = 1, accumLightness = Num (282578800148737 / 562949953421312),
       pureWhiteIgnored = 1, pureBlackIgnored = 0\<rparr>"
    by (simp add: scan_eval white_grey_def half_ratio_options_def default_options_def)
  have b2: "pass2_scan white_grey half_ratio_options =
      \<lparr>edgeOpaque = 2, edgeLightAccum = Num (845528753570049 / 562949953421312)\<rparr>"
    by (simp add: scan_eval white_grey_def half_ratio_options_def default_options_def)
  have "card (edge_sample grey_pixel half_ratio_options)
        \<noteq> card (foreground grey_pixel half_ratio_options)"
    by (simp add: pass2_scan_edgeOpaque[OF wf(1), symmetric]
        pass1_scan_fgCount[OF wf(1), symmetric] a1 a2)
  then have n1: "edge_sample grey_pixel half_ratio_options
        \<noteq> foreground grey_pixel half_ratio_options"
    by auto
  have "card (edge_sample white_grey half_ratio_options)
        \<noteq> card (foreground white_grey half_ratio_options)"
    by (simp add: pass2_scan_edgeOpaque[OF wf(2), symmetric]
        pass1_scan_fgCount[OF wf(2), symmetric] b1 b2)
  then have n2: "edge_sample white_grey half_ratio_options
        \<noteq> foreground white_grey half_ratio_options"
    by auto
  have t: "tone (suggestBackground white_grey half_ratio_options) = light"
    by (simp add: suggestBackground_def edge_decision_def lit_def b1 b2 rnd_values)
  have r: "1 / 2 \<le> opt_edgeSampleRatio half_ratio_options"
    by (simp add: opt_edgeSampleRatio_def half_ratio_options_def)
  show ?thesis
    using n1 n2 t r by (simp add: a1 a2 b1 b2 rnd_values)
qed

text \<open>
  C9. When both band widths \<open>\<lfloor>width * edgeSampleRatio\<rfloor>\<close> and
  \<open>\<lfloor>height * edgeSampleRatio\<rfloor>\<close>, floors of the binary64 products, are 0, the edge band
  is empty, and a bitmap whose mean foreground lightness lies in the band from 0.42 to
  0.58 gets tone dark with confidence 0.1, even when all of its pixels are opaque, as in
  the witness.
\<close>

theorem empty_edge_band:
  assumes "well_formed img" and "foreground img opts \<noteq> {}"
    and "rnd 0.42 \<le> mean_lightness img (foreground img opts)"
    and "mean_lightness img (foreground img opts) \<le> rnd 0.58"
    and "edgeBandX img opts = 0" and "edgeBandY img opts = 0"
  shows "edge_sample img opts = {}
       \<and> tone (suggestBackground img opts) = dark
       \<and> confidence (suggestBackground img opts) = Num (rnd 0.1)"
proof -
  have "\<not> in_edge_band img opts x y" if "x < width img" "y < height img" for x y
    using that assms(5,6) by (simp add: in_edge_band_iff inYBand_def inXBand_def)
  then have e: "edge_sample img opts = {}"
    by (auto simp: edge_sample_def is_edge_sample_def pixels_def)
  with assms(2-4) show ?thesis
    by (simp add: suggestBackground_sets[OF assms(1)] Let_def rnd_consts)
qed

theorem empty_edge_band_witness:
  "well_formed grey_square \<and> foreground grey_square default_options = pixels grey_square
   \<and> mean_lightness grey_square (foreground grey_square default_options)
       = 282578800148737 / 562949953421312
   \<and> edgeBandX grey_square default_options = 0 \<and> edgeBandY grey_square default_options = 0
   \<and> tone (suggestBackground grey_square default_options) = dark
   \<and> confidence (suggestBackground grey_square default_options) = Num (rnd 0.1)"
proof -
  have wf: "well_formed grey_square"
    by (simp add: well_formed_def grey_square_def array_length_from)
  have scan: "pass1_scan grey_square default_options =
      \<lparr>fgCount = 4, accumLightness = Num (282578800148737 / 140737488355328),
       pureWhiteIgnored = 0, pureBlackIgnored = 0\<rparr>"
    by (simp add: scan_eval grey_square_def default_options_def)
  have c: "card (foreground grey_square default_options) = 4"
    and ne: "foreground grey_square default_options \<noteq> {}"
    and m: "mean_lightness grey_square (foreground grey_square default_options)
       = 282578800148737 / 562949953421312"
    using foreground_by_scan[OF wf, of default_options "282578800148737 / 140737488355328"] scan
    by (simp_all add: rnd_values)
  have "card (pixels grey_square) = 4"
    by (simp add: pixels_def grey_square_def)
  with c have all: "foreground grey_square default_options = pixels grey_square"
    by (intro card_subset_eq finite_pixels) (simp_all add: foreground_def)
  have lo: "rnd 0.42 \<le> mean_lightness grey_square (foreground grey_square default_options)"
    and hi: "mean_lightness grey_square (foreground grey_square default_options) \<le> rnd 0.58"
    by (simp_all add: m rnd_consts)
  have bx: "edgeBandX grey_square default_options = 0"
    and by': "edgeBandY grey_square default_options = 0"
    by (simp_all add: edgeBandX_def edgeBandY_def opt_edgeSampleRatio_def grey_square_def
        default_options_def rnd_values)
  show ?thesis
    using empty_edge_band[OF wf ne lo hi bx by'] wf all m bx by' by simp
qed

text \<open>
  C10. The confidence is 0 exactly when no pixel was counted as foreground.
\<close>

theorem zero_confidence_iff_no_foreground:
  "confidence (suggestBackground img opts) = Num 0
   \<longleftrightarrow> foregroundSampled (suggestBackground img opts) = 0"
proof (cases "fgCount (pass1_scan img opts) = 0")
  case True
  then show ?thesis by (simp add: suggestBackground_no_foreground)
next
  case False
  from suggestBackground_some_foreground[OF this] have "confidence (suggestBackground img opts) \<noteq> Num 0"
    by (cases "confidence (suggestBackground img opts)") auto
  with False show ?thesis by (simp add: suggestBackground_counts)
qed

theorem zero_confidence_iff_no_foreground_witness:
  "confidence (suggestBackground white_pixel default_options) = Num 0
   \<and> foregroundSampled (suggestBackground white_pixel default_options) = 0
   \<and> confidence (suggestBackground light_logo default_options) \<noteq> Num 0
   \<and> foregroundSampled (suggestBackground light_logo default_options) = 4"
proof -
  have "fgCount (pass1_scan white_pixel default_options) = 0"
    by (simp add: scan_eval white_pixel_def default_options_def)
  then have "foregroundSampled (suggestBackground white_pixel default_options) = 0"
    by (simp add: suggestBackground_counts)
  moreover have "fgCount (pass1_scan light_logo default_options) = 4"
    by (simp add: scan_eval light_logo_def default_options_def)
  then have "foregroundSampled (suggestBackground light_logo default_options) = 4"
    by (simp add: suggestBackground_counts)
  ultimately show ?thesis
    using zero_confidence_iff_no_foreground[of white_pixel default_options]
      zero_confidence_iff_no_foreground[of light_logo default_options]
    by simp
qed

end
